theory Spec2Isabelle
  imports Main
begin

section \<open>Data model of the module generator\<close>

text \<open>
  The generator of \<^verbatim>\<open>brevitas/graph/generator.py\<close> walks a trace of operations and
  emits a schedule of instructions. Python objects are compared by identity (\<^verbatim>\<open>is\<close>)
  in several places, so every module carries an object identity \<open>mid\<close>, and the runtime
  values a module consumes and produces are represented by their identity alone.
\<close>

type_synonym class_id = nat

type_synonym value_id = nat

text \<open>
  A \<^verbatim>\<open>torch.nn.Module\<close> as the tests of the generator see it: its identity, the
  qualified name of its class (what the helper \<^verbatim>\<open>module_class_name\<close> returns for it) and
  the classes it is an instance of. What the object holds, its child modules and its
  other attributes, is mutable state and lives in the store of the hierarchy builder.
\<close>

datatype module =
  Module (mid: nat) (class_name: string) (mro: "class_id list")

text \<open>An entry of the allow-list or block-list: a string, a class, or any other object.\<close>

datatype gen_entry = Prefix string | Cls class_id | OtherEntry

text \<open>The call kinds the schedule builder dispatches on; \<open>UNSUPPORTED\<close> is any other value.\<close>

datatype FnType = MODULE | FUNCTION | METHOD | ATTRIBUTE | SCRIPTMODULE | UNSUPPORTED

text \<open>
  Objects that occur as leaves of argument structures, as keys and as values of the
  trace's index map. \<open>Parameter\<close> is a subclass of \<open>Tensor\<close>; a tensor is given by its
  elements. Python's \<^verbatim>\<open>==\<close> and hashing on these objects (list membership, dictionary
  keys) are the equality of these values.
\<close>

datatype obj = Index nat | PyNone | Num int | Tensor "int list" | Parameter "int list" | Opaque nat

datatype arg = Leaf obj | AList "arg list" | ATuple "arg list" | ADict "(string \<times> arg) list"

datatype callable = FnModule module | FnName string

text \<open>
  The errors the generator can end with. \<open>RuntimeError\<close> is the one raised by
  \<^verbatim>\<open>_gen_constants_parameters\<close> itself; \<open>ItemError\<close> is the error of torch's
  \<^verbatim>\<open>Tensor.item()\<close> on a tensor that does not have exactly one element.
\<close>

datatype error = IndexError | KeyError | TypeError | ItemError | AssertionError | RuntimeError

record Instruction =
  output_index :: obj
  inst_fn :: callable
  inst_fn_type :: FnType
  input_args_list :: "arg list"
  input_kwargs_dict :: "(string \<times> arg) list"
  inst_prefix :: string

record TraceElem =
  module_context_list :: "module list"
  module_input_list :: "value_id list"
  module_output :: value_id
  prefix_list :: "string list"
  prefix :: string
  fn :: callable
  fn_type :: FnType
  module_fn_name :: string
  fn_args_index :: "arg list"
  fn_kwargs_index :: "(string \<times> arg) list"
  fn_out_index :: obj

record Trace =
  trace_elem_list :: "TraceElem list"
  index_map :: "(obj \<times> obj) list"
  model_input_index_list :: "obj list"
  model_output_index_list :: "obj list"
  index_from_val :: "value_id \<Rightarrow> obj"

type_synonym ctx = "module \<times> value_id list \<times> value_id"

record ModuleGenerator =
  gen_module_allowlist :: "gen_entry list"
  gen_module_blocklist :: "gen_entry list"
  generated_allowlist_modules :: "ctx list"

section \<open>Classifier\<close>

definition startswith :: "string \<Rightarrow> string \<Rightarrow> bool" where
  "startswith s p = (take (length p) s = p)"

text \<open>\<^verbatim>\<open>isinstance(gm, str) and module_class_name(module).startswith(gm)\<close>\<close>

fun str_match :: "gen_entry \<Rightarrow> module \<Rightarrow> bool" where
  "str_match (Prefix p) m = startswith (class_name m) p"
| "str_match _ m = False"

text \<open>\<^verbatim>\<open>isclass(gm) and isinstance(module, gm)\<close>\<close>

fun cls_match :: "gen_entry \<Rightarrow> module \<Rightarrow> bool" where
  "cls_match (Cls k) m = (k \<in> set (mro m))"
| "cls_match _ m = False"

definition is_module_in_gen_list :: "module \<Rightarrow> gen_entry list \<Rightarrow> bool" where
  "is_module_in_gen_list m gen_list =
     fold (\<lambda>gm output. (output \<or> str_match gm m) \<or> cls_match gm m) gen_list False"

definition is_module_in_gen_blocklist :: "ModuleGenerator \<Rightarrow> module \<Rightarrow> bool" where
  "is_module_in_gen_blocklist g m = is_module_in_gen_list m (gen_module_blocklist g)"

definition is_module_in_gen_allowlist :: "ModuleGenerator \<Rightarrow> module \<Rightarrow> bool" where
  "is_module_in_gen_allowlist g m = is_module_in_gen_list m (gen_module_allowlist g)"

text \<open>One pass of the inner loop of \<^verbatim>\<open>_parent_in_gen_allowlist\<close> over the allow-list.\<close>

definition parent_scan_entry ::
  "ModuleGenerator \<Rightarrow> module \<Rightarrow> gen_entry \<Rightarrow> module option \<Rightarrow> module option" where
  "parent_scan_entry g c gma output =
     (if str_match gma c then (if \<not> is_module_in_gen_blocklist g c then Some c else output)
      else if cls_match gma c then (if \<not> is_module_in_gen_blocklist g c then Some c else output)
      else output)"

definition parent_in_gen_allowlist :: "ModuleGenerator \<Rightarrow> TraceElem \<Rightarrow> module option" where
  "parent_in_gen_allowlist g trace_elem =
     fold (\<lambda>c output. fold (parent_scan_entry g c) (gen_module_allowlist g) output)
          (rev (butlast (module_context_list trace_elem))) None"

text \<open>Eligible for preservation: matches the allow-list and not the block-list.\<close>

definition eligible :: "ModuleGenerator \<Rightarrow> module \<Rightarrow> bool" where
  "eligible g m = (is_module_in_gen_allowlist g m \<and> \<not> is_module_in_gen_blocklist g m)"

section \<open>Generation-state tracker\<close>

text \<open>
  Identity of the two kinds of object that the second loop of
  \<^verbatim>\<open>_is_module_already_gen\<close> compares with \<^verbatim>\<open>is\<close>: a module, known by its \<open>mid\<close>,
  and a tuple recorded in the tracker, known by its position there (every recorded
  tuple is built by the schedule builder when it is appended).
\<close>

datatype pyobj = ModuleObj nat | TupleObj nat

text \<open>\<^verbatim>\<open>all([i is mi for i, mi in zip(i_list, trace_elem.module_input_list)])\<close>\<close>

definition same_input :: "value_id list \<Rightarrow> value_id list \<Rightarrow> bool" where
  "same_input i_list mil = list_all (\<lambda>(i, mi). i = mi) (zip i_list mil)"

definition same_ctx :: "module \<Rightarrow> TraceElem \<Rightarrow> ctx \<Rightarrow> bool" where
  "same_ctx module_arg trace_elem c =
     (case c of (m, i_list, out) \<Rightarrow>
        mid m = mid module_arg \<and> same_input i_list (module_input_list trace_elem)
        \<and> out = module_output trace_elem)"

definition parent_already_preserved :: "ModuleGenerator \<Rightarrow> TraceElem \<Rightarrow> bool \<Rightarrow> bool" where
  "parent_already_preserved g trace_elem acc0 =
     fold (\<lambda>c acc. fold (\<lambda>k acc. acc \<or> ModuleObj (mid c) = TupleObj k)
                        [0 ..< length (generated_allowlist_modules g)] acc)
          (module_context_list trace_elem) acc0"

definition is_module_already_gen :: "ModuleGenerator \<Rightarrow> module \<Rightarrow> TraceElem \<Rightarrow> bool" where
  "is_module_already_gen g module_arg trace_elem =
     parent_already_preserved g trace_elem
       (fold (\<lambda>c acc. acc \<or> same_ctx module_arg trace_elem c)
             (generated_allowlist_modules g) False)"

text \<open>
  Condition (a) as the specification words it: some recorded context has the same module
  identity, the same ordered input reference list and the same output reference.
\<close>

definition recorded_same_invocation :: "ModuleGenerator \<Rightarrow> module \<Rightarrow> TraceElem \<Rightarrow> bool" where
  "recorded_same_invocation g module_arg trace_elem =
     list_ex (\<lambda>c. case c of (m, i_list, out) \<Rightarrow>
                 mid m = mid module_arg \<and> i_list = module_input_list trace_elem
                 \<and> out = module_output trace_elem)
             (generated_allowlist_modules g)"

section \<open>Hierarchy builder\<close>

text \<open>A Python dictionary as an association list: assignment keeps the position of a key.\<close>

fun dict_set :: "'k \<Rightarrow> 'v \<Rightarrow> ('k \<times> 'v) list \<Rightarrow> ('k \<times> 'v) list" where
  "dict_set k v [] = [(k, v)]"
| "dict_set k v (kv # d) = (if fst kv = k then (k, v) # d else kv # dict_set k v d)"

text \<open>
  The hierarchy builder mutates module objects in place, and one object can be reached
  under several names, so the module objects live in a store. An object is known by its
  identity: \<open>Given n\<close> is the object of the module with \<open>mid\<close> \<open>n\<close>, which exists before
  the generator runs; \<open>Created k\<close> is the \<open>k\<close>-th object the generator creates itself
  (\<^verbatim>\<open>CodegenModule()\<close> and \<^verbatim>\<open>Module()\<close>).
\<close>

datatype ident = Given nat | Created nat

text \<open>
  What the store holds for an object: the ordered dictionary \<^verbatim>\<open>_modules\<close> of its named
  children, and the names of the attributes the object has of its own besides the ones
  every module has (fields set by its class, parameters, buffers).
\<close>

record node =
  attrs :: "string list"
  modules :: "(string \<times> ident) list"

text \<open>
  The store. The attribute names of the classes of torch and of
  \<^verbatim>\<open>brevitas.graph.module\<close> are not among the sources and are parameters of the model:
  \<open>Module_attributes\<close> are the names \<^verbatim>\<open>hasattr\<close> finds on every \<^verbatim>\<open>torch.nn.Module\<close>
  object (the methods and fields of the class, such as \<^verbatim>\<open>forward\<close> or \<^verbatim>\<open>training\<close>),
  \<open>CodegenModule_attributes\<close> the names a new \<^verbatim>\<open>CodegenModule()\<close> has besides. An object
  without an entry has no children and no attributes of its own.
\<close>

record store =
  Module_attributes :: "string list"
  CodegenModule_attributes :: "string list"
  objects :: "(ident \<times> node) list"

definition node_of :: "store \<Rightarrow> ident \<Rightarrow> node" where
  "node_of h a =
     (case map_of (objects h) a of Some n \<Rightarrow> n | None \<Rightarrow> \<lparr>attrs = [], modules = []\<rparr>)"

definition set_node :: "store \<Rightarrow> ident \<Rightarrow> node \<Rightarrow> store" where
  "set_node h a n = h\<lparr>objects := dict_set a n (objects h)\<rparr>"

text \<open>
  \<^verbatim>\<open>hasattr(module, name)\<close>: an attribute of every module, an attribute of the object's
  own, or a child module (\<^verbatim>\<open>Module.__getattr__\<close> looks a name up in \<^verbatim>\<open>_modules\<close>).
\<close>

definition hasattr :: "store \<Rightarrow> ident \<Rightarrow> string \<Rightarrow> bool" where
  "hasattr h a name =
     (name \<in> set (Module_attributes h) \<or> name \<in> set (attrs (node_of h a))
      \<or> name \<in> set (map fst (modules (node_of h a))))"

text \<open>
  A new object is different from every object there is: its identity is a \<open>Created\<close>
  one above all those the store mentions.
\<close>

fun created_bound :: "ident \<Rightarrow> nat" where
  "created_bound (Created k) = Suc k"
| "created_bound (Given n) = 0"

definition store_idents :: "store \<Rightarrow> ident list" where
  "store_idents h = concat (map (\<lambda>e. fst e # map snd (modules (snd e))) (objects h))"

definition new_object :: "string list \<Rightarrow> store \<Rightarrow> ident \<times> store" where
  "new_object own h =
     (let a = Created (fold max (map created_bound (store_idents h)) 0)
      in (a, set_node h a \<lparr>attrs = own, modules = []\<rparr>))"

text \<open>\<^verbatim>\<open>Module()\<close>: an empty placeholder container.\<close>

definition new_Module :: "store \<Rightarrow> ident \<times> store" where
  "new_Module h = new_object [] h"

text \<open>
  \<^verbatim>\<open>named_modules()\<close> of torch: the module itself under the given prefix, then the
  modules below each child in the order of \<^verbatim>\<open>_modules\<close>, under the dotted path. One
  memo is shared by the whole traversal, and an object that it already holds is not
  listed again (nor are the modules below it). The traversal is written with the list
  of the items still to visit.
\<close>

definition submodule_items :: "store \<Rightarrow> string \<Rightarrow> ident \<Rightarrow> (string \<times> ident) list" where
  "submodule_items h pfx a =
     map (\<lambda>kv. (pfx @ (if pfx = [] then [] else ''.'') @ fst kv, snd kv))
         (modules (node_of h a))"

function named_modules_from ::
  "store \<Rightarrow> (string \<times> ident) list \<Rightarrow> ident list \<Rightarrow> (string \<times> ident) list" where
  "named_modules_from h [] memo = []"
| "named_modules_from h (item # todo) memo =
     (if snd item \<in> set memo then named_modules_from h todo memo
      else item # named_modules_from h (submodule_items h (fst item) (snd item) @ todo)
                    (snd item # memo))"
  by pat_completeness auto

text \<open>
  The traversal ends: every visit puts a new object into the memo, and the objects to
  visit are those of the list and the children the store mentions.
\<close>

definition unvisited :: "store \<Rightarrow> (string \<times> ident) list \<Rightarrow> ident list \<Rightarrow> ident set" where
  "unvisited h todo memo =
     ((\<Union>e \<in> set (objects h). snd ` set (modules (snd e))) \<union> snd ` set todo) - set memo"

termination named_modules_from
proof (relation "measures [\<lambda>(h, todo, memo). card (unvisited h todo memo),
                           \<lambda>(h, todo, memo). length todo]")
  show "wf (measures [\<lambda>(h, todo, memo). card (unvisited h todo memo),
                       \<lambda>(h, todo, memo). length todo])"
    by simp
next
  fix h :: store and item :: "string \<times> ident" and todo memo
  assume "snd item \<in> set memo"
  have "unvisited h todo memo \<subseteq> unvisited h (item # todo) memo"
    by (auto simp: unvisited_def)
  moreover have "finite (unvisited h (item # todo) memo)"
    by (simp add: unvisited_def)
  ultimately have "card (unvisited h todo memo) \<le> card (unvisited h (item # todo) memo)"
    by (rule card_mono [rotated])
  then show "((h, todo, memo), (h, item # todo, memo))
       \<in> measures [\<lambda>(h, todo, memo). card (unvisited h todo memo),
                    \<lambda>(h, todo, memo). length todo]"
    by auto
next
  fix h :: store and item :: "string \<times> ident" and todo memo
  assume new: "snd item \<notin> set memo"
  let ?below = "submodule_items h (fst item) (snd item)"
  have below: "snd ` set ?below \<subseteq> (\<Union>e \<in> set (objects h). snd ` set (modules (snd e)))"
  proof (cases "map_of (objects h) (snd item)")
    case None
    then show ?thesis by (simp add: submodule_items_def node_of_def)
  next
    case (Some n)
    then have "(snd item, n) \<in> set (objects h)" by (rule map_of_SomeD)
    then have "snd ` set (modules n)
                 \<subseteq> (\<Union>e \<in> set (objects h). snd ` set (modules (snd e)))"
      by force
    moreover have "snd ` set ?below = snd ` set (modules n)"
      using Some by (force simp: submodule_items_def node_of_def)
    ultimately show ?thesis by simp
  qed
  have "snd item \<in> unvisited h (item # todo) memo"
    using new by (simp add: unvisited_def)
  moreover have "snd item \<notin> unvisited h (?below @ todo) (snd item # memo)"
    by (simp add: unvisited_def)
  moreover have "unvisited h (?below @ todo) (snd item # memo)
                   \<subseteq> unvisited h (item # todo) memo"
    using below by (auto simp: unvisited_def)
  ultimately have "unvisited h (?below @ todo) (snd item # memo)
                     \<subset> unvisited h (item # todo) memo"
    by blast
  moreover have "finite (unvisited h (item # todo) memo)"
    by (simp add: unvisited_def)
  ultimately have "card (unvisited h (?below @ todo) (snd item # memo))
                     < card (unvisited h (item # todo) memo)"
    by (rule psubset_card_mono [rotated])
  then show "((h, ?below @ todo, snd item # memo), (h, item # todo, memo))
       \<in> measures [\<lambda>(h, todo, memo). card (unvisited h todo memo),
                    \<lambda>(h, todo, memo). length todo]"
    by simp
qed

definition named_modules :: "store \<Rightarrow> ident \<Rightarrow> (string \<times> ident) list" where
  "named_modules h a = named_modules_from h [([], a)] []"

text \<open>
  \<^verbatim>\<open>Module.add_module(name, module)\<close> of torch. The last argument is the identity of the
  attached module, or \<open>None\<close> when what is attached is a callable that is not a module.
  A type error when the attached object is not a module; a key error when the name is an
  attribute of the object that is not one of its child modules (\<^verbatim>\<open>hasattr(self, name)
  and name not in self._modules\<close>), when it has a dot, or when it is empty; otherwise the
  child is stored under the name.
\<close>

definition Module_add_module :: "store \<Rightarrow> ident \<Rightarrow> string \<Rightarrow> ident option \<Rightarrow> error + store" where
  "Module_add_module h supermodule name module_arg =
     (case module_arg of
        None \<Rightarrow> Inl TypeError
      | Some c \<Rightarrow>
          if hasattr h supermodule name
             \<and> name \<notin> set (map fst (modules (node_of h supermodule)))
          then Inl KeyError
          else if CHR ''.'' \<in> set name then Inl KeyError
          else if name = [] then Inl KeyError
          else Inr (set_node h supermodule
                      ((node_of h supermodule)
                         \<lparr>modules := dict_set name c (modules (node_of h supermodule))\<rparr>)))"

text \<open>The object behind a callable of the trace, when the callable is a module.\<close>

fun module_object :: "callable \<Rightarrow> ident option" where
  "module_object (FnModule m) = Some (Given (mid m))"
| "module_object (FnName n) = None"

text \<open>
  The walk of \<^verbatim>\<open>_add_module\<close> from a module of the store: a segment that is among the
  names \<^verbatim>\<open>named_modules()\<close> reports is looked up in \<^verbatim>\<open>_modules\<close>, for any other segment
  a placeholder is created and attached.
\<close>

fun add_module_from ::
  "callable \<Rightarrow> string \<Rightarrow> string list \<Rightarrow> ident \<Rightarrow> store \<Rightarrow> error + store" where
  "add_module_from f module_name [] supermodule h =
     Module_add_module h supermodule module_name (module_object f)"
| "add_module_from f module_name (p # ps) supermodule h =
     (if p \<in> set (map fst (named_modules h supermodule)) then
        (case map_of (modules (node_of h supermodule)) p of
           None \<Rightarrow> Inl KeyError
         | Some sub \<Rightarrow> add_module_from f module_name ps sub h)
      else
        (case new_Module h of
           (submodule, h1) \<Rightarrow>
             (case Module_add_module h1 supermodule p (Some submodule) of
                Inl e \<Rightarrow> Inl e
              | Inr h2 \<Rightarrow> add_module_from f module_name ps submodule h2)))"

text \<open>
  The output model the schedule builder works on: the object \<^verbatim>\<open>gen_model\<close> and the
  store it lives in.
\<close>

type_synonym output_model = "ident \<times> store"

definition add_module ::
  "callable \<Rightarrow> string \<Rightarrow> string list \<Rightarrow> output_model \<Rightarrow> error + output_model" where
  "add_module f module_name pfxs model =
     (case add_module_from f module_name pfxs (fst model) (snd model) of
        Inl e \<Rightarrow> Inl e
      | Inr h \<Rightarrow> Inr (fst model, h))"


section \<open>Instruction synthesizer\<close>

definition module_instruction ::
  "callable \<Rightarrow> TraceElem \<Rightarrow> Trace \<Rightarrow> output_model \<Rightarrow> error + (output_model \<times> Instruction)" where
  "module_instruction f trace_elem trace output_model =
     (if prefix_list trace_elem = [] then Inl IndexError
      else
        (case add_module f (last (prefix_list trace_elem)) (butlast (prefix_list trace_elem))
                output_model of
           Inl e \<Rightarrow> Inl e
         | Inr output_model' \<Rightarrow>
             Inr (output_model',
                  \<lparr>output_index = index_from_val trace (module_output trace_elem),
                   inst_fn = f,
                   inst_fn_type = MODULE,
                   input_args_list =
                     map (\<lambda>i. Leaf (index_from_val trace i)) (module_input_list trace_elem),
                   input_kwargs_dict = [],
                   inst_prefix = prefix trace_elem\<rparr>)))"

definition torch_fn_instruction :: "TraceElem \<Rightarrow> Instruction" where
  "torch_fn_instruction trace_elem =
     \<lparr>output_index = fn_out_index trace_elem,
      inst_fn = fn trace_elem,
      inst_fn_type = fn_type trace_elem,
      input_args_list = fn_args_index trace_elem,
      input_kwargs_dict = fn_kwargs_index trace_elem,
      inst_prefix = prefix trace_elem\<rparr>"

definition tensor_fn_instruction :: "TraceElem \<Rightarrow> Trace \<Rightarrow> Instruction" where
  "tensor_fn_instruction trace_elem trace =
     \<lparr>output_index = fn_out_index trace_elem,
      inst_fn = fn trace_elem,
      inst_fn_type = fn_type trace_elem,
      input_args_list = fn_args_index trace_elem,
      input_kwargs_dict = fn_kwargs_index trace_elem,
      inst_prefix = prefix trace_elem\<rparr>"

definition module_fn_instruction ::
  "TraceElem \<Rightarrow> output_model \<Rightarrow> error + (output_model \<times> Instruction)" where
  "module_fn_instruction trace_elem output_model =
     (case add_module (fn trace_elem) (module_fn_name trace_elem) (prefix_list trace_elem)
             output_model of
        Inl e \<Rightarrow> Inl e
      | Inr output_model' \<Rightarrow> Inr (output_model', torch_fn_instruction trace_elem))"

section \<open>Schedule builder\<close>

text \<open>
  The \<^verbatim>\<open>else\<close> branch of the loop body: dispatch on the call kind, with the assertion
  that an instruction was produced.
\<close>

definition dispatch_fn_type ::
  "TraceElem \<Rightarrow> Trace \<Rightarrow> output_model \<Rightarrow> error + (output_model \<times> Instruction)" where
  "dispatch_fn_type trace_elem trace output_model =
     (case fn_type trace_elem of
        MODULE \<Rightarrow> module_fn_instruction trace_elem output_model
      | FUNCTION \<Rightarrow> Inr (output_model, torch_fn_instruction trace_elem)
      | METHOD \<Rightarrow> Inr (output_model, tensor_fn_instruction trace_elem trace)
      | ATTRIBUTE \<Rightarrow> Inr (output_model, tensor_fn_instruction trace_elem trace)
      | SCRIPTMODULE \<Rightarrow> module_instruction (fn trace_elem) trace_elem trace output_model
      | UNSUPPORTED \<Rightarrow> Inl AssertionError)"

definition record_ctx :: "ModuleGenerator \<Rightarrow> module \<Rightarrow> TraceElem \<Rightarrow> ModuleGenerator" where
  "record_ctx g module_arg trace_elem =
     g\<lparr>generated_allowlist_modules := generated_allowlist_modules g @
          [(module_arg, module_input_list trace_elem, module_output trace_elem)]\<rparr>"

definition with_state ::
  "ModuleGenerator \<Rightarrow> error + (output_model \<times> Instruction)
     \<Rightarrow> error + (ModuleGenerator \<times> output_model \<times> Instruction option)" where
  "with_state g r = (case r of Inl e \<Rightarrow> Inl e | Inr (om, inst) \<Rightarrow> Inr (g, om, Some inst))"

text \<open>
  The body of the loop of \<^verbatim>\<open>_gen_schedule\<close> for one trace element; the result \<open>None\<close>
  is the \<^verbatim>\<open>continue\<close> of the skip branch.
\<close>

definition gen_schedule_step ::
  "ModuleGenerator \<Rightarrow> Trace \<Rightarrow> output_model \<Rightarrow> TraceElem
     \<Rightarrow> error + (ModuleGenerator \<times> output_model \<times> Instruction option)" where
  "gen_schedule_step g trace output_model trace_elem =
     (if module_context_list trace_elem = [] then Inl IndexError
      else
        (let module_arg = last (module_context_list trace_elem);
             parent_in_allowlist = parent_in_gen_allowlist g trace_elem;
             in_allowlist = (is_module_in_gen_allowlist g module_arg
                             \<and> \<not> is_module_in_gen_blocklist g module_arg);
             m_already_gen = is_module_already_gen g module_arg trace_elem
         in if parent_in_allowlist \<noteq> None \<and> \<not> m_already_gen then
              with_state (record_ctx g module_arg trace_elem)
                (module_instruction (FnModule (the parent_in_allowlist)) trace_elem trace
                   output_model)
            else if in_allowlist \<and> \<not> m_already_gen then
              with_state (record_ctx g module_arg trace_elem)
                (module_instruction (FnModule module_arg) trace_elem trace output_model)
            else if in_allowlist \<and> m_already_gen then Inr (g, output_model, None)
            else with_state g (dispatch_fn_type trace_elem trace output_model)))"

fun gen_schedule_loop ::
  "ModuleGenerator \<Rightarrow> Trace \<Rightarrow> output_model \<Rightarrow> TraceElem list \<Rightarrow> Instruction list
     \<Rightarrow> error + (ModuleGenerator \<times> output_model \<times> Instruction list)" where
  "gen_schedule_loop g trace output_model [] sched = Inr (g, output_model, sched)"
| "gen_schedule_loop g trace output_model (trace_elem # rest) sched =
     (case gen_schedule_step g trace output_model trace_elem of
        Inl e \<Rightarrow> Inl e
      | Inr (g', output_model', r) \<Rightarrow>
          gen_schedule_loop g' trace output_model' rest
            (case r of None \<Rightarrow> sched | Some inst \<Rightarrow> sched @ [inst]))"

definition gen_schedule ::
  "ModuleGenerator \<Rightarrow> Trace \<Rightarrow> output_model
     \<Rightarrow> error + (ModuleGenerator \<times> output_model \<times> Instruction list)" where
  "gen_schedule g trace output_model =
     gen_schedule_loop g trace output_model (trace_elem_list trace) []"

section \<open>Constant and parameter resolver\<close>

text \<open>
  Modelled from the spec: the helper \<^verbatim>\<open>flatten\<close> of \<^verbatim>\<open>brevitas.graph.utils\<close> is not
  among the sources. The specification has the resolver collect "the flattened set of
  all positional+keyword input references": the leaves of the nested argument
  structures, in order.
\<close>

fun flatten :: "arg \<Rightarrow> obj list" where
  "flatten (Leaf x) = [x]"
| "flatten (AList xs) = concat (map flatten xs)"
| "flatten (ATuple xs) = concat (map flatten xs)"
| "flatten (ADict kvs) = concat (map (\<lambda>kv. flatten (snd kv)) kvs)"

definition flatten_list :: "arg list \<Rightarrow> obj list" where
  "flatten_list xs = concat (map flatten xs)"

fun isinstance_Parameter :: "obj \<Rightarrow> bool" where
  "isinstance_Parameter (Parameter xs) = True"
| "isinstance_Parameter _ = False"

fun isinstance_Index :: "obj \<Rightarrow> bool" where
  "isinstance_Index (Index n) = True"
| "isinstance_Index _ = False"

text \<open>
  \<^verbatim>\<open>v.item() if isinstance(v, Tensor) else v\<close>: torch converts a tensor of exactly one
  element and raises for any other tensor.
\<close>

fun item :: "obj \<Rightarrow> error + obj" where
  "item (Tensor xs) = (case xs of [x] \<Rightarrow> Inr (Num x) | _ \<Rightarrow> Inl ItemError)"
| "item (Parameter xs) = (case xs of [x] \<Rightarrow> Inr (Num x) | _ \<Rightarrow> Inl ItemError)"
| "item v = Inr v"

text \<open>\<^verbatim>\<open>{c: trace.index_map[c] for c in cs}\<close>, with the key error of a missing index.\<close>

fun index_map_dict ::
  "(obj \<times> obj) list \<Rightarrow> obj list \<Rightarrow> (obj \<times> obj) list \<Rightarrow> error + (obj \<times> obj) list" where
  "index_map_dict im [] d = Inr d"
| "index_map_dict im (c # cs) d =
     (case map_of im c of
        None \<Rightarrow> Inl KeyError
      | Some v \<Rightarrow> index_map_dict im cs (dict_set c v d))"

text \<open>\<^verbatim>\<open>{k: v.item() if isinstance(v, Tensor) else v for k, v in consts.items()}\<close>\<close>

fun item_dict :: "(obj \<times> obj) list \<Rightarrow> error + (obj \<times> obj) list" where
  "item_dict [] = Inr []"
| "item_dict (kv # d) =
     (case item (snd kv) of
        Inl e \<Rightarrow> Inl e
      | Inr v \<Rightarrow> (case item_dict d of Inl e \<Rightarrow> Inl e | Inr d' \<Rightarrow> Inr ((fst kv, v) # d')))"

definition const_index_list :: "Instruction list \<Rightarrow> Trace \<Rightarrow> obj list" where
  "const_index_list sched trace =
     (let output_index_list = map output_index sched;
          input_index_list =
            flatten_list (concat (map input_args_list sched))
            @ flatten_list (concat (map (\<lambda>inst. map snd (input_kwargs_dict inst)) sched));
          cs = filter (\<lambda>i. i \<notin> set (model_input_index_list trace)) input_index_list
      in filter (\<lambda>i. i \<notin> set output_index_list) cs)"

definition gen_constants_parameters ::
  "Instruction list \<Rightarrow> Trace \<Rightarrow> error + ((obj \<times> obj) list \<times> (obj \<times> obj) list)" where
  "gen_constants_parameters sched trace =
     (let cs = const_index_list sched trace in
      case index_map_dict (index_map trace) (filter (\<lambda>c. \<not> isinstance_Parameter c) cs) [] of
        Inl e \<Rightarrow> Inl e
      | Inr consts \<Rightarrow>
          (case index_map_dict (index_map trace) (filter isinstance_Parameter cs) [] of
             Inl e \<Rightarrow> Inl e
           | Inr params \<Rightarrow>
               (case item_dict consts of
                  Inl e \<Rightarrow> Inl e
                | Inr consts' \<Rightarrow>
                    if PyNone \<in> set (map fst consts') then Inl RuntimeError
                    else Inr (consts', params))))"

definition solve_leaf :: "obj \<Rightarrow> (obj \<times> obj) list \<Rightarrow> (obj \<times> obj) list \<Rightarrow> obj" where
  "solve_leaf a consts params =
     (if isinstance_Index a then
        (case map_of consts a of
           Some v \<Rightarrow> v
         | None \<Rightarrow> (case map_of params a of Some v \<Rightarrow> v | None \<Rightarrow> a))
      else a)"

fun solve_consts_params :: "arg \<Rightarrow> (obj \<times> obj) list \<Rightarrow> (obj \<times> obj) list \<Rightarrow> arg" where
  "solve_consts_params (AList xs) consts params =
     AList (map (\<lambda>a. solve_consts_params a consts params) xs)"
| "solve_consts_params (ATuple xs) consts params =
     ATuple (map (\<lambda>a. solve_consts_params a consts params) xs)"
| "solve_consts_params (ADict kvs) consts params =
     ADict (map (\<lambda>kv. (fst kv, solve_consts_params (snd kv) consts params)) kvs)"
| "solve_consts_params (Leaf a) consts params = Leaf (solve_leaf a consts params)"

definition apply_consts_params ::
  "Instruction list \<Rightarrow> (obj \<times> obj) list \<Rightarrow> (obj \<times> obj) list \<Rightarrow> Instruction list" where
  "apply_consts_params sched consts params =
     map (\<lambda>inst. inst\<lparr>input_args_list :=
                         map (\<lambda>a. solve_consts_params a consts params) (input_args_list inst),
                       input_kwargs_dict :=
                         map (\<lambda>kv. (fst kv, solve_consts_params (snd kv) consts params))
                             (input_kwargs_dict inst)\<rparr>) sched"

text \<open>
  The references a schedule consumes: the leaves of all positional and keyword
  arguments, as \<^verbatim>\<open>_gen_constants_parameters\<close> collects them in \<^verbatim>\<open>input_index_list\<close>.
\<close>

definition consumed :: "Instruction list \<Rightarrow> obj list" where
  "consumed sched =
     flatten_list (concat (map input_args_list sched))
     @ flatten_list (concat (map (\<lambda>inst. map snd (input_kwargs_dict inst)) sched))"

section \<open>The generator\<close>

definition Sequential :: class_id where "Sequential = 1"

definition ModuleList :: class_id where "ModuleList = 2"

definition ModuleDict :: class_id where "ModuleDict = 3"

definition default_gen_module_allowlist :: "gen_entry list" where
  "default_gen_module_allowlist = [Prefix ''torch.nn'', Prefix ''brevitas.nn'']"

definition default_gen_module_blocklist :: "gen_entry list" where
  "default_gen_module_blocklist = [Cls Sequential, Cls ModuleList, Cls ModuleDict]"

text \<open>\<^verbatim>\<open>ModuleGenerator.__init__\<close>: the only place where the tracker is set to empty.\<close>

definition ModuleGenerator_init :: "gen_entry list \<Rightarrow> gen_entry list \<Rightarrow> ModuleGenerator" where
  "ModuleGenerator_init allowlist blocklist =
     \<lparr>gen_module_allowlist = allowlist,
      gen_module_blocklist = blocklist,
      generated_allowlist_modules = []\<rparr>"

text \<open>
  The generated model: the object \<^verbatim>\<open>CodegenModule()\<close> of the store, with the three
  attributes \<^verbatim>\<open>gen_model\<close> assigns to it.
\<close>

record CodegenModule =
  model_object :: ident
  schedule :: "Instruction list"
  input_index_list :: "obj list"
  output_index_list :: "obj list"

text \<open>\<^verbatim>\<open>CodegenModule()\<close>: the empty root of the output model, a new object.\<close>

definition new_CodegenModule :: "store \<Rightarrow> output_model" where
  "new_CodegenModule h = new_object (CodegenModule_attributes h) h"

text \<open>
  \<^verbatim>\<open>Module.__setattr__\<close> of torch for a value that is a list: a type error when the name
  is that of a child module, otherwise the object has the attribute. (A new
  \<^verbatim>\<open>CodegenModule()\<close> is taken to have no parameter or buffer under these names.)
\<close>

definition Module_setattr :: "store \<Rightarrow> ident \<Rightarrow> string \<Rightarrow> error + store" where
  "Module_setattr h a name =
     (if name \<in> set (map fst (modules (node_of h a))) then Inl TypeError
      else Inr (set_node h a ((node_of h a)\<lparr>attrs := List.insert name (attrs (node_of h a))\<rparr>)))"

text \<open>
  \<^verbatim>\<open>gen_model\<close> returns the generated model; the generator object, whose tracker the
  schedule builder has appended to, and the store are returned with it.
\<close>

definition gen_model ::
  "ModuleGenerator \<Rightarrow> Trace \<Rightarrow> store \<Rightarrow> error + (ModuleGenerator \<times> store \<times> CodegenModule)" where
  "gen_model g trace h =
     (case gen_schedule g trace (new_CodegenModule h) of
        Inl e \<Rightarrow> Inl e
      | Inr (g', output_model, sched) \<Rightarrow>
          (case gen_constants_parameters sched trace of
             Inl e \<Rightarrow> Inl e
           | Inr (consts, params) \<Rightarrow>
               (case Module_setattr (snd output_model) (fst output_model) ''schedule'' of
                  Inl e \<Rightarrow> Inl e
                | Inr h1 \<Rightarrow>
                    (case Module_setattr h1 (fst output_model) ''input_index_list'' of
                       Inl e \<Rightarrow> Inl e
                     | Inr h2 \<Rightarrow>
                         (case Module_setattr h2 (fst output_model) ''output_index_list'' of
                            Inl e \<Rightarrow> Inl e
                          | Inr h3 \<Rightarrow>
                              Inr (g', h3,
                                   \<lparr>model_object = fst output_model,
                                    schedule = apply_consts_params sched consts params,
                                    input_index_list = model_input_index_list trace,
                                    output_index_list = model_output_index_list trace\<rparr>))))))"

section \<open>Dispositions of the schedule builder\<close>

text \<open>
  The conditions of the four branches of the loop body, and the instruction each branch
  builds, written without the output model: the store decides only whether attaching a
  module raises.
\<close>

definition enclosing_module :: "TraceElem \<Rightarrow> module" where
  "enclosing_module te = last (module_context_list te)"

definition skip_disposition :: "ModuleGenerator \<Rightarrow> TraceElem \<Rightarrow> bool" where
  "skip_disposition g te =
     (eligible g (enclosing_module te) \<and> is_module_already_gen g (enclosing_module te) te)"

definition preserves :: "ModuleGenerator \<Rightarrow> TraceElem \<Rightarrow> bool" where
  "preserves g te =
     ((parent_in_gen_allowlist g te \<noteq> None \<or> eligible g (enclosing_module te))
      \<and> \<not> is_module_already_gen g (enclosing_module te) te)"

text \<open>The element asks for preservation: a parent or its own module is eligible.\<close>

definition preservable :: "ModuleGenerator \<Rightarrow> TraceElem \<Rightarrow> bool" where
  "preservable g te =
     (parent_in_gen_allowlist g te \<noteq> None \<or> eligible g (enclosing_module te))"

definition next_tracker :: "ModuleGenerator \<Rightarrow> TraceElem \<Rightarrow> ModuleGenerator" where
  "next_tracker g te = (if preserves g te then record_ctx g (enclosing_module te) te else g)"

definition module_inst :: "Trace \<Rightarrow> callable \<Rightarrow> TraceElem \<Rightarrow> Instruction" where
  "module_inst trace f te =
     \<lparr>output_index = index_from_val trace (module_output te),
      inst_fn = f,
      inst_fn_type = MODULE,
      input_args_list = map (\<lambda>i. Leaf (index_from_val trace i)) (module_input_list te),
      input_kwargs_dict = [],
      inst_prefix = prefix te\<rparr>"

definition inst_for :: "ModuleGenerator \<Rightarrow> Trace \<Rightarrow> TraceElem \<Rightarrow> Instruction" where
  "inst_for g trace te =
     (if preserves g te then
        (case parent_in_gen_allowlist g te of
           Some p \<Rightarrow> module_inst trace (FnModule p) te
         | None \<Rightarrow> module_inst trace (FnModule (enclosing_module te)) te)
      else if fn_type te = SCRIPTMODULE then module_inst trace (fn te) te
      else torch_fn_instruction te)"

fun expected_schedule :: "ModuleGenerator \<Rightarrow> Trace \<Rightarrow> TraceElem list \<Rightarrow> Instruction list" where
  "expected_schedule g trace [] = []"
| "expected_schedule g trace (te # rest) =
     (if skip_disposition g te then expected_schedule g trace rest
      else inst_for g trace te # expected_schedule (next_tracker g te) trace rest)"

fun emitting_elems :: "ModuleGenerator \<Rightarrow> TraceElem list \<Rightarrow> TraceElem list" where
  "emitting_elems g [] = []"
| "emitting_elems g (te # rest) =
     (if skip_disposition g te then emitting_elems g rest
      else te # emitting_elems (next_tracker g te) rest)"

section \<open>Example inputs\<close>

definition ex_generator :: ModuleGenerator where
  "ex_generator = ModuleGenerator_init default_gen_module_allowlist default_gen_module_blocklist"

definition ex_Net :: module where
  "ex_Net = Module 1 ''__main__.Net'' []"

definition ex_Linear :: module where
  "ex_Linear = Module 2 ''torch.nn.modules.linear.Linear'' []"

text \<open>
  An operation traced inside a call of the linear layer \<open>fc\<close> of the net, on the value 1
  with result 2.
\<close>

definition ex_te_linear :: TraceElem where
  "ex_te_linear =
     \<lparr>module_context_list = [ex_Net, ex_Linear],
      module_input_list = [1],
      module_output = 2,
      prefix_list = [''fc''],
      prefix = ''fc'',
      fn = FnName ''torch.nn.functional.linear'',
      fn_type = FUNCTION,
      module_fn_name = ''linear'',
      fn_args_index = [Leaf (Index 1), Leaf (Index 7)],
      fn_kwargs_index = [(''bias'', Leaf (Index 8))],
      fn_out_index = Index 2\<rparr>"

text \<open>An addition in the net's own forward: the value 2 plus a closed-over scalar.\<close>

definition ex_te_add :: TraceElem where
  "ex_te_add =
     \<lparr>module_context_list = [ex_Net],
      module_input_list = [1],
      module_output = 3,
      prefix_list = [],
      prefix = [],
      fn = FnName ''torch.add'',
      fn_type = FUNCTION,
      module_fn_name = ''add'',
      fn_args_index = [Leaf (Index 2), AList [Leaf (Index 9)]],
      fn_kwargs_index = [],
      fn_out_index = Index 3\<rparr>"

definition ex_te_unsupported :: TraceElem where
  "ex_te_unsupported = ex_te_add\<lparr>fn_type := UNSUPPORTED\<rparr>"

definition ex_trace :: Trace where
  "ex_trace =
     \<lparr>trace_elem_list = [ex_te_linear, ex_te_linear, ex_te_add],
      index_map = [(Index 9, Tensor [3])],
      model_input_index_list = [Index 1],
      model_output_index_list = [Index 3],
      index_from_val = Index\<rparr>"

text \<open>
  The same linear layer called on the value 1 and a second value 5, returning the same
  object 2 as the first call.
\<close>

definition ex_te_linear_more :: TraceElem where
  "ex_te_linear_more = ex_te_linear\<lparr>module_input_list := [1, 5]\<rparr>"

definition ex_generator_recorded :: ModuleGenerator where
  "ex_generator_recorded = ex_generator\<lparr>generated_allowlist_modules := [(ex_Linear, [1], 2)]\<rparr>"

definition ex_trace_two_calls :: Trace where
  "ex_trace_two_calls = ex_trace\<lparr>trace_elem_list := [ex_te_linear, ex_te_linear_more]\<rparr>"


text \<open>The raw schedule of the example trace, before constants are resolved.\<close>

definition ex_schedule :: "Instruction list" where
  "ex_schedule =
     [module_inst ex_trace (FnModule ex_Linear) ex_te_linear, torch_fn_instruction ex_te_add]"

text \<open>The example trace with other values behind the free reference 9.\<close>

definition ex_trace_none_value :: Trace where
  "ex_trace_none_value = ex_trace\<lparr>index_map := [(Index 9, PyNone)]\<rparr>"

definition ex_trace_parameter :: Trace where
  "ex_trace_parameter = ex_trace\<lparr>index_map := [(Index 9, Parameter [3])]\<rparr>"

definition ex_trace_weight :: Trace where
  "ex_trace_weight = ex_trace\<lparr>index_map := [(Index 9, Parameter [1, 2])]\<rparr>"

text \<open>A schedule whose instruction has none itself as an argument reference.\<close>

definition ex_schedule_none_ref :: "Instruction list" where
  "ex_schedule_none_ref = [torch_fn_instruction (ex_te_add\<lparr>fn_args_index := [Leaf PyNone]\<rparr>)]"

definition ex_trace_none_key :: Trace where
  "ex_trace_none_key = ex_trace\<lparr>index_map := [(PyNone, Num 0)]\<rparr>"

definition ex_trace_tensor :: Trace where
  "ex_trace_tensor = ex_trace\<lparr>index_map := [(Index 9, Tensor [1, 2])]\<rparr>"

text \<open>
  Two function calls in the net's forward: the first consumes the reference 1, which only
  the second produces, and writes its result to the model input 0, which the second
  consumes.
\<close>

definition ex_te_f :: TraceElem where
  "ex_te_f = ex_te_add\<lparr>fn := FnName ''f'', fn_args_index := [Leaf (Index 1)],
                         fn_out_index := Index 0\<rparr>"

definition ex_te_g :: TraceElem where
  "ex_te_g = ex_te_add\<lparr>fn := FnName ''g'', fn_args_index := [Leaf (Index 0)],
                         fn_out_index := Index 1\<rparr>"

definition ex_trace_out_of_order :: Trace where
  "ex_trace_out_of_order =
     \<lparr>trace_elem_list = [ex_te_f, ex_te_g],
      index_map = [],
      model_input_index_list = [Index 0],
      model_output_index_list = [Index 1],
      index_from_val = Index\<rparr>"

text \<open>
  One call of an allow-listed quantized layer \<open>layer\<close> of the net, on the value 11: inside
  it the submodule \<open>quant\<close> maps 11 to 12 and the submodule \<open>act\<close> maps 12 to 13. Neither
  submodule is allow-listed itself.
\<close>

definition ex_Block :: module where
  "ex_Block = Module 4 ''brevitas.nn.quant_linear.QuantLinear'' []"

definition ex_Inner1 :: module where
  "ex_Inner1 = Module 5 ''brevitas.core.quant.IntQuant'' []"

definition ex_Inner2 :: module where
  "ex_Inner2 = Module 6 ''brevitas.core.function_wrapper.Identity'' []"

definition ex_te_inner1 :: TraceElem where
  "ex_te_inner1 =
     \<lparr>module_context_list = [ex_Net, ex_Block, ex_Inner1],
      module_input_list = [11],
      module_output = 12,
      prefix_list = [''layer'', ''quant''],
      prefix = ''layer.quant'',
      fn = FnName ''torch.round'',
      fn_type = FUNCTION,
      module_fn_name = ''round'',
      fn_args_index = [Leaf (Index 11)],
      fn_kwargs_index = [],
      fn_out_index = Index 12\<rparr>"

definition ex_te_inner2 :: TraceElem where
  "ex_te_inner2 =
     \<lparr>module_context_list = [ex_Net, ex_Block, ex_Inner2],
      module_input_list = [12],
      module_output = 13,
      prefix_list = [''layer'', ''act''],
      prefix = ''layer.act'',
      fn = FnName ''torch.relu'',
      fn_type = FUNCTION,
      module_fn_name = ''relu'',
      fn_args_index = [Leaf (Index 12)],
      fn_kwargs_index = [],
      fn_out_index = Index 13\<rparr>"

definition ex_trace_block :: Trace where
  "ex_trace_block =
     \<lparr>trace_elem_list = [ex_te_inner1, ex_te_inner2],
      index_map = [],
      model_input_index_list = [Index 11],
      model_output_index_list = [Index 13],
      index_from_val = Index\<rparr>"

text \<open>The example trace with a value recorded for every index.\<close>

definition ex_trace_indexed :: Trace where
  "ex_trace_indexed =
     ex_trace\<lparr>index_map := [(Index 1, Tensor [5]), (Index 2, Tensor [6]),
                             (Index 3, Tensor [9]), (Index 9, Tensor [3])]\<rparr>"

text \<open>
  The module objects of the traced models before generation: the net with its layers
  \<open>fc\<close>, \<open>fc2\<close> and \<open>layer\<close>, and the quantized layer with its submodules \<open>quant\<close> and
  \<open>act\<close>. For the attribute names of the two classes, a few of those of torch.
\<close>

definition ex_store :: store where
  "ex_store =
     \<lparr>Module_attributes = [''training'', ''forward'', ''add_module'', ''named_modules''],
      CodegenModule_attributes = [''schedule'', ''input_index_list'', ''output_index_list''],
      objects =
        [(Given 1, \<lparr>attrs = [], modules = [(''fc'', Given 2), (''fc2'', Given 3),
                                             (''layer'', Given 4)]\<rparr>),
         (Given 2, \<lparr>attrs = [''weight'', ''bias''], modules = []\<rparr>),
         (Given 3, \<lparr>attrs = [''weight'', ''bias''], modules = []\<rparr>),
         (Given 4, \<lparr>attrs = [''weight'', ''bias''],
                    modules = [(''quant'', Given 5), (''act'', Given 6)]\<rparr>),
         (Given 5, \<lparr>attrs = [], modules = []\<rparr>),
         (Given 6, \<lparr>attrs = [], modules = []\<rparr>)]\<rparr>"

text \<open>
  The store after the generator has created the output model and attached the linear
  layer to it under the name \<open>fc\<close>.
\<close>

definition ex_store_fc :: store where
  "ex_store_fc =
     ex_store\<lparr>objects := objects ex_store @
       [(Created 0, \<lparr>attrs = CodegenModule_attributes ex_store,
                      modules = [(''fc'', Given 2)]\<rparr>)]\<rparr>"













text \<open>The example trace with the index 9 itself as the value behind the reference 9.\<close>

definition ex_trace_index_value :: Trace where
  "ex_trace_index_value = ex_trace\<lparr>index_map := [(Index 9, Index 9)]\<rparr>"

section \<open>Properties of the classifier\<close>

lemma fold_or_acc:
  "fold (\<lambda>gm output. (output \<or> P gm) \<or> Q gm) xs b = (b \<or> (\<exists>gm \<in> set xs. P gm \<or> Q gm))"
  by (induction xs arbitrary: b) auto

lemma is_module_in_gen_list_iff:
  "is_module_in_gen_list m gl = (\<exists>gm \<in> set gl. str_match gm m \<or> cls_match gm m)"
  unfolding is_module_in_gen_list_def
  using fold_or_acc [of "\<lambda>gm. str_match gm m" "\<lambda>gm. cls_match gm m" gl False] by simp

lemma parent_scan_fold:
  "fold (parent_scan_entry g c) gl acc =
     (if (\<exists>gma \<in> set gl. str_match gma c \<or> cls_match gma c) \<and> \<not> is_module_in_gen_blocklist g c
      then Some c else acc)"
  by (induction gl arbitrary: acc) (auto simp: parent_scan_entry_def)

lemma parent_scan_eligible:
  "fold (parent_scan_entry g c) (gen_module_allowlist g) acc =
     (if eligible g c then Some c else acc)"
  by (simp add: parent_scan_fold eligible_def is_module_in_gen_allowlist_def
      is_module_in_gen_list_iff)

lemma find_snoc:
  "find P (xs @ [x]) = (case find P xs of Some y \<Rightarrow> Some y | None \<Rightarrow> if P x then Some x else None)"
  by (induction xs) auto

lemma fold_last_wins:
  "fold (\<lambda>c acc. if P c then Some c else acc) xs acc =
     (case find P (rev xs) of Some c \<Rightarrow> Some c | None \<Rightarrow> acc)"
proof (induction xs arbitrary: acc)
  case Nil
  show ?case by simp
next
  case (Cons x xs)
  show ?case
    by (simp add: Cons.IH find_snoc split: option.splits)
qed

lemma parent_in_gen_allowlist_find:
  "parent_in_gen_allowlist g te = find (eligible g) (butlast (module_context_list te))"
  by (simp add: parent_in_gen_allowlist_def parent_scan_eligible fold_last_wins
      split: option.splits)

text \<open>
  Claim C6. The ancestor scan looks at the context list without its last (innermost)
  entry and returns the outermost ancestor that matches the allow-list and not the
  block-list; a later, more outward eligible ancestor overwrites an inner one, an
  ineligible one leaves the result alone, and the result is none when no ancestor is
  eligible. The context list is ordered outermost first, so this is the first eligible
  entry of the list without its last element.
\<close>

theorem parent_in_gen_allowlist_outermost:
  "parent_in_gen_allowlist g te = find (eligible g) (butlast (module_context_list te))"
  by (rule parent_in_gen_allowlist_find)

section \<open>Properties of the tracker and of the loop body\<close>

lemma fold_keep: "fold (\<lambda>k acc. acc) ks acc = acc"
  by (induction ks) simp_all

lemma fold_fold_keep: "fold (\<lambda>c. fold (\<lambda>k acc. acc) ks) cs acc = acc"
  by (induction cs arbitrary: acc) (simp_all add: fold_keep)

lemma parent_check_dead: "parent_already_preserved g te acc = acc"
  by (simp add: parent_already_preserved_def fold_fold_keep)

lemma fold_or_ex: "fold (\<lambda>c acc. acc \<or> P c) xs b = (b \<or> list_ex P xs)"
  by (induction xs arbitrary: b) auto

lemma is_module_already_gen_iff:
  "is_module_already_gen g m te = list_ex (same_ctx m te) (generated_allowlist_modules g)"
  by (simp add: is_module_already_gen_def parent_check_dead fold_or_ex)

lemma same_input_eq_length: "length xs = length ys \<Longrightarrow> same_input xs ys = (xs = ys)"
  unfolding same_input_def
  by (induction xs ys rule: list_induct2) auto

lemma same_input_refl: "same_input xs xs"
  unfolding same_input_def by (induction xs) auto

lemma module_instruction_Inr:
  "module_instruction f te tr om = Inr (om', inst) \<Longrightarrow> inst = module_inst tr f te"
  by (auto simp: module_instruction_def module_inst_def split: if_splits sum.splits)

lemma dispatch_fn_type_Inr:
  assumes "dispatch_fn_type te tr om = Inr (om', inst)"
  shows "inst = (if fn_type te = SCRIPTMODULE then module_inst tr (fn te) te
                 else torch_fn_instruction te)"
    and "fn_type te \<noteq> UNSUPPORTED"
proof -
  show "fn_type te \<noteq> UNSUPPORTED"
    using assms by (auto simp: dispatch_fn_type_def)
  show "inst = (if fn_type te = SCRIPTMODULE then module_inst tr (fn te) te
                 else torch_fn_instruction te)"
  proof (cases "fn_type te")
    case MODULE
    then show ?thesis using assms
      by (auto simp: dispatch_fn_type_def module_fn_instruction_def split: sum.splits)
  next
    case SCRIPTMODULE
    then show ?thesis using assms
      by (auto simp: dispatch_fn_type_def dest: module_instruction_Inr)
  next
    case UNSUPPORTED
    then show ?thesis using assms by (simp add: dispatch_fn_type_def)
  qed (use assms in \<open>auto simp: dispatch_fn_type_def tensor_fn_instruction_def torch_fn_instruction_def\<close>)
qed

lemma with_state_Inr:
  "with_state g r = Inr (g', om', x) \<Longrightarrow> \<exists>inst. r = Inr (om', inst) \<and> g' = g \<and> x = Some inst"
  by (auto simp: with_state_def split: sum.splits)

lemma step_result:
  assumes "gen_schedule_step g tr om te = Inr (g', om', r)"
  shows "g' = next_tracker g te \<and>
         r = (if skip_disposition g te then None else Some (inst_for g tr te))"
proof -
  let ?m = "enclosing_module te"
  let ?dup = "is_module_already_gen g ?m te"
  let ?par = "parent_in_gen_allowlist g te"
  have ne: "module_context_list te \<noteq> []"
    using assms by (auto simp: gen_schedule_step_def)
  consider (anc) "?par \<noteq> None" "\<not> ?dup"
    | (dir) "\<not> (?par \<noteq> None \<and> \<not> ?dup)" "eligible g ?m" "\<not> ?dup"
    | (skip) "eligible g ?m" "?dup"
    | (prim) "\<not> eligible g ?m" "\<not> (?par \<noteq> None \<and> \<not> ?dup)"
    by blast
  then show ?thesis
  proof cases
    case anc
    then obtain p where p: "?par = Some p" by auto
    from anc ne assms have
      "with_state (record_ctx g ?m te) (module_instruction (FnModule p) te tr om) = Inr (g', om', r)"
      by (simp add: gen_schedule_step_def Let_def enclosing_module_def p)
    from with_state_Inr [OF this] obtain inst where
      i: "module_instruction (FnModule p) te tr om = Inr (om', inst)"
      "g' = record_ctx g ?m te" "r = Some inst" by blast
    from anc have pres: "preserves g te" by (simp add: preserves_def)
    from anc have ns: "\<not> skip_disposition g te" by (simp add: skip_disposition_def)
    show ?thesis
      using i pres ns p module_instruction_Inr [OF i(1)]
      by (simp add: next_tracker_def inst_for_def)
  next
    case dir
    then have pn: "?par = None" by auto
    from dir ne assms have
      "with_state (record_ctx g ?m te) (module_instruction (FnModule ?m) te tr om) = Inr (g', om', r)"
      by (auto simp: gen_schedule_step_def Let_def enclosing_module_def eligible_def)
    from with_state_Inr [OF this] obtain inst where
      i: "module_instruction (FnModule ?m) te tr om = Inr (om', inst)"
      "g' = record_ctx g ?m te" "r = Some inst" by blast
    from dir have pres: "preserves g te" by (simp add: preserves_def)
    from dir have ns: "\<not> skip_disposition g te" by (simp add: skip_disposition_def)
    show ?thesis
      using i pres ns pn module_instruction_Inr [OF i(1)]
      by (simp add: next_tracker_def inst_for_def)
  next
    case skip
    from skip ne assms have "g' = g" "r = None"
      by (auto simp: gen_schedule_step_def Let_def enclosing_module_def eligible_def)
    moreover from skip have "\<not> preserves g te" by (simp add: preserves_def)
    moreover from skip have "skip_disposition g te" by (simp add: skip_disposition_def)
    ultimately show ?thesis by (simp add: next_tracker_def)
  next
    case prim
    from prim ne assms have
      "with_state g (dispatch_fn_type te tr om) = Inr (g', om', r)"
      by (auto simp: gen_schedule_step_def Let_def enclosing_module_def eligible_def)
    from with_state_Inr [OF this] obtain inst where
      i: "dispatch_fn_type te tr om = Inr (om', inst)" "g' = g" "r = Some inst" by blast
    from prim have pres: "\<not> preserves g te" by (auto simp: preserves_def)
    from prim have ns: "\<not> skip_disposition g te" by (simp add: skip_disposition_def)
    show ?thesis
      using i pres ns dispatch_fn_type_Inr(1) [OF i(1)]
      by (simp add: next_tracker_def inst_for_def)
  qed
qed

section \<open>Properties of the schedule\<close>

lemma inst_prefix_inst_for: "inst_prefix (inst_for g tr te) = prefix te"
  by (simp add: inst_for_def module_inst_def torch_fn_instruction_def split: option.splits)

lemma loop_result:
  "gen_schedule_loop g tr om elems s0 = Inr (g', om', s) \<Longrightarrow>
     s = s0 @ expected_schedule g tr elems \<and> g' = fold (\<lambda>te g. next_tracker g te) elems g"
proof (induction elems arbitrary: g om s0)
  case Nil
  then show ?case by simp
next
  case (Cons te rest)
  from Cons.prems obtain g1 om1 r where
    st: "gen_schedule_step g tr om te = Inr (g1, om1, r)" and
    lp: "gen_schedule_loop g1 tr om1 rest (case r of None \<Rightarrow> s0 | Some inst \<Rightarrow> s0 @ [inst])
           = Inr (g', om', s)"
    by (auto split: sum.splits)
  from step_result [OF st] have g1: "g1 = next_tracker g te"
    and r: "r = (if skip_disposition g te then None else Some (inst_for g tr te))" by simp_all
  have nt: "skip_disposition g te \<Longrightarrow> next_tracker g te = g"
    by (simp add: skip_disposition_def next_tracker_def preserves_def)
  from Cons.IH [OF lp] show ?case
    using g1 r nt by (cases "skip_disposition g te") simp_all
qed

lemma expected_schedule_prefixes:
  "map inst_prefix (expected_schedule g tr elems) = map prefix (emitting_elems g elems)"
  by (induction elems arbitrary: g) (simp_all add: inst_prefix_inst_for)

lemma dispatch_unsupported:
  "fn_type te = UNSUPPORTED \<Longrightarrow> dispatch_fn_type te tr om = Inl AssertionError"
  by (simp add: dispatch_fn_type_def)

lemma step_assertion:
  assumes "module_context_list te \<noteq> []" "\<not> preserves g te" "\<not> skip_disposition g te"
    "fn_type te = UNSUPPORTED"
  shows "gen_schedule_step g tr om te = Inl AssertionError"
  using assms
  by (auto simp: gen_schedule_step_def Let_def preserves_def skip_disposition_def
      enclosing_module_def eligible_def with_state_def dispatch_unsupported)

lemma Module_add_module_err:
  "Module_add_module h s n c = Inl e \<Longrightarrow> e = TypeError \<or> e = KeyError"
  by (auto simp: Module_add_module_def split: option.splits if_splits)

lemma add_module_from_err:
  "add_module_from f n ps a h = Inl e \<Longrightarrow> e = TypeError \<or> e = KeyError"
proof (induction ps arbitrary: a h)
  case Nil
  then show ?case by (simp add: Module_add_module_err)
next
  case (Cons p ps)
  then show ?case
    by (auto split: if_splits option.splits sum.splits prod.splits dest: Module_add_module_err)
qed

lemma add_module_err:
  "add_module f n ps m = Inl e \<Longrightarrow> e = TypeError \<or> e = KeyError"
  by (auto simp: add_module_def split: sum.splits dest: add_module_from_err)

lemma module_instruction_err:
  "module_instruction f te tr om = Inl e \<Longrightarrow> e = IndexError \<or> e = TypeError \<or> e = KeyError"
  by (auto simp: module_instruction_def split: if_splits sum.splits dest: add_module_err)

lemma dispatch_assertion:
  "dispatch_fn_type te tr om = Inl AssertionError \<Longrightarrow> fn_type te = UNSUPPORTED"
  by (cases "fn_type te")
     (auto simp: dispatch_fn_type_def module_fn_instruction_def split: sum.splits
           dest: add_module_err module_instruction_err)

lemma with_state_Inl: "with_state g r = Inl e \<Longrightarrow> r = Inl e"
  by (auto simp: with_state_def split: sum.splits)

lemma step_assertion_only_unsupported:
  assumes "gen_schedule_step g tr om te = Inl AssertionError"
  shows "fn_type te = UNSUPPORTED"
proof -
  from assms have ne: "module_context_list te \<noteq> []"
    by (auto simp: gen_schedule_step_def split: if_splits)
  from assms ne have
    "(\<exists>f g1. with_state g1 (module_instruction f te tr om) = Inl AssertionError)
     \<or> with_state g (dispatch_fn_type te tr om) = Inl AssertionError"
    by (auto simp: gen_schedule_step_def Let_def split: if_splits)
  then show ?thesis
    by (auto dest!: with_state_Inl dest: module_instruction_err dispatch_assertion)
qed

lemma loop_assertion_only_unsupported:
  "gen_schedule_loop g tr om elems s0 = Inl AssertionError \<Longrightarrow>
     \<exists>te \<in> set elems. fn_type te = UNSUPPORTED"
proof (induction elems arbitrary: g om s0)
  case Nil
  then show ?case by simp
next
  case (Cons te rest)
  then show ?case
    by (auto split: sum.splits dest: step_assertion_only_unsupported)
qed

text \<open>
  Claim C8. Every trace element appends exactly one instruction to the schedule, in
  trace order, except an element taking the skip disposition (enclosing module eligible
  and already generated), which appends nothing; an element that is neither preserved
  nor skipped and whose call kind is none of the five supported ones fails the internal
  assertion; when every element has a supported call kind the assertion never fails, so
  the schedule holds an instruction for each element that is not skipped.
\<close>

theorem gen_schedule_one_instruction_per_element:
  "(gen_schedule_step g tr om te = Inr (g1, om1, r) \<longrightarrow>
      (r = None) = skip_disposition g te \<and> (\<forall>inst. r = Some inst \<longrightarrow> inst = inst_for g tr te))
   \<and> (gen_schedule g tr om = Inr (g2, om2, sched) \<longrightarrow>
        sched = expected_schedule g tr (trace_elem_list tr)
        \<and> map inst_prefix sched = map prefix (emitting_elems g (trace_elem_list tr)))
   \<and> (module_context_list te' \<noteq> [] \<and> \<not> preserves g te' \<and> \<not> skip_disposition g te'
        \<and> fn_type te' = UNSUPPORTED \<longrightarrow>
        gen_schedule_step g tr om te' = Inl AssertionError)
   \<and> ((\<forall>e \<in> set (trace_elem_list tr). fn_type e \<noteq> UNSUPPORTED) \<longrightarrow>
        gen_schedule g tr om \<noteq> Inl AssertionError)"
proof (intro conjI impI)
  assume "gen_schedule_step g tr om te = Inr (g1, om1, r)"
  from step_result [OF this]
  show "(r = None) = skip_disposition g te" and "\<forall>inst. r = Some inst \<longrightarrow> inst = inst_for g tr te"
    by (simp_all split: if_splits)
next
  assume "gen_schedule g tr om = Inr (g2, om2, sched)"
  then have "sched = [] @ expected_schedule g tr (trace_elem_list tr)"
    unfolding gen_schedule_def by (rule loop_result [THEN conjunct1])
  then show "sched = expected_schedule g tr (trace_elem_list tr)" by simp
  then show "map inst_prefix sched = map prefix (emitting_elems g (trace_elem_list tr))"
    by (simp add: expected_schedule_prefixes)
next
  assume "module_context_list te' \<noteq> [] \<and> \<not> preserves g te' \<and> \<not> skip_disposition g te'
        \<and> fn_type te' = UNSUPPORTED"
  then show "gen_schedule_step g tr om te' = Inl AssertionError"
    by (simp add: step_assertion)
next
  assume "\<forall>e \<in> set (trace_elem_list tr). fn_type e \<noteq> UNSUPPORTED"
  then show "gen_schedule g tr om \<noteq> Inl AssertionError"
    unfolding gen_schedule_def using loop_assertion_only_unsupported by blast
qed

theorem gen_schedule_one_instruction_per_element_witness:
  "gen_schedule_step ex_generator ex_trace (new_CodegenModule ex_store) ex_te_linear
     = Inr (ex_generator_recorded, (Created 0, ex_store_fc),
            Some (module_inst ex_trace (FnModule ex_Linear) ex_te_linear))
   \<and> \<not> skip_disposition ex_generator ex_te_linear
   \<and> gen_schedule ex_generator ex_trace (new_CodegenModule ex_store)
       = Inr (ex_generator_recorded, (Created 0, ex_store_fc),
              [module_inst ex_trace (FnModule ex_Linear) ex_te_linear,
               torch_fn_instruction ex_te_add])
   \<and> map prefix (emitting_elems ex_generator [ex_te_linear, ex_te_linear, ex_te_add])
       = [''fc'', []]
   \<and> module_context_list ex_te_unsupported \<noteq> []
   \<and> \<not> preserves ex_generator ex_te_unsupported
   \<and> \<not> skip_disposition ex_generator ex_te_unsupported
   \<and> fn_type ex_te_unsupported = UNSUPPORTED
   \<and> gen_schedule_step ex_generator ex_trace (new_CodegenModule ex_store) ex_te_unsupported
       = Inl AssertionError
   \<and> list_all (\<lambda>e. fn_type e \<noteq> UNSUPPORTED) (trace_elem_list ex_trace)
   \<and> gen_schedule ex_generator ex_trace (new_CodegenModule ex_store) \<noteq> Inl AssertionError"
proof -
  let ?new = "new_CodegenModule ex_store"
  let ?om = "(Created 0, ex_store_fc)"
  let ?i1 = "module_inst ex_trace (FnModule ex_Linear) ex_te_linear"
  let ?sched = "[?i1, torch_fn_instruction ex_te_add]"
  have h1: "gen_schedule_step ex_generator ex_trace ?new ex_te_linear
     = Inr (ex_generator_recorded, ?om, Some ?i1)"
    by code_simp
  have h2: "gen_schedule ex_generator ex_trace ?new
       = Inr (ex_generator_recorded, ?om, ?sched)"
    by code_simp
  have h3: "module_context_list ex_te_unsupported \<noteq> []" by code_simp
  have h4: "\<not> preserves ex_generator ex_te_unsupported" by code_simp
  have h5: "\<not> skip_disposition ex_generator ex_te_unsupported" by code_simp
  have h6: "fn_type ex_te_unsupported = UNSUPPORTED" by code_simp
  have h7: "\<forall>e \<in> set (trace_elem_list ex_trace). fn_type e \<noteq> UNSUPPORTED" by code_simp
  have h8: "trace_elem_list ex_trace = [ex_te_linear, ex_te_linear, ex_te_add]"
    by (simp add: ex_trace_def)
  have h9: "map inst_prefix ?sched = [''fc'', []]" by code_simp
  note T = gen_schedule_one_instruction_per_element
    [of ex_generator ex_trace ?new ex_te_linear ex_generator_recorded ?om
        "Some ?i1" ex_generator_recorded ?om ?sched ex_te_unsupported]
  from T h1 have c1: "\<not> skip_disposition ex_generator ex_te_linear" by blast
  from T h2 have "map inst_prefix ?sched
      = map prefix (emitting_elems ex_generator (trace_elem_list ex_trace))" by blast
  with h8 h9 have c2:
    "map prefix (emitting_elems ex_generator [ex_te_linear, ex_te_linear, ex_te_add])
       = [''fc'', []]" by metis
  from T h3 h4 h5 h6 have c3:
    "gen_schedule_step ex_generator ex_trace ?new ex_te_unsupported
       = Inl AssertionError" by blast
  from T h7 have c4: "gen_schedule ex_generator ex_trace ?new \<noteq> Inl AssertionError"
    by blast
  from h7 have h7': "list_all (\<lambda>e. fn_type e \<noteq> UNSUPPORTED) (trace_elem_list ex_trace)"
    by (simp add: list_all_iff)
  from h1 c1 h2 c2 h3 h4 h5 h6 c3 h7' c4 show ?thesis by blast
qed

section \<open>Properties of the duplicate test\<close>

text \<open>
  The first loop is the test of condition (a) whenever the recorded tuples of the same
  module and the same output have input lists of the length of the element's.
\<close>

lemma recorded_same_invocation_iff:
  assumes "\<forall>c \<in> set (generated_allowlist_modules g).
             mid (fst c) = mid m \<and> snd (snd c) = module_output te \<longrightarrow>
             length (fst (snd c)) = length (module_input_list te)"
  shows "is_module_already_gen g m te = recorded_same_invocation g m te"
proof -
  have "same_ctx m te c = (case c of (m', i_list, out) \<Rightarrow>
                 mid m' = mid m \<and> i_list = module_input_list te \<and> out = module_output te)"
    if "c \<in> set (generated_allowlist_modules g)" for c
  proof (cases c)
    case (fields m' i_list out)
    show ?thesis
    proof (cases "mid m' = mid m \<and> out = module_output te")
      case True
      with assms that fields have "length i_list = length (module_input_list te)" by force
      then show ?thesis by (simp add: fields same_ctx_def same_input_eq_length)
    next
      case False
      then show ?thesis by (auto simp: fields same_ctx_def)
    qed
  qed
  then show ?thesis
    unfolding is_module_already_gen_iff recorded_same_invocation_def list_ex_iff by blast
qed

text \<open>
  Claim C10. The check of the second loop of the duplicate test never holds, so the
  duplicate decision is to be that of condition (a): some recorded tuple with identical
  module, identical input references and identical output. Here the tracker holds the
  call of the linear layer on the input list \<open>[1]\<close> with output 2, and the element is
  a call of the same layer on the input list \<open>[1, 5]\<close> with the same output object. The
  second loop adds nothing and no recorded tuple has the element's input references,
  yet the duplicate test answers true: the first loop pairs the inputs with \<^verbatim>\<open>zip\<close>,
  which stops at the shorter list.
\<close>

theorem is_module_already_gen_not_condition_a:
  "generated_allowlist_modules ex_generator_recorded = [(ex_Linear, [1], 2)]
   \<and> module_input_list ex_te_linear_more = [1, 5]
   \<and> module_output ex_te_linear_more = 2
   \<and> parent_already_preserved ex_generator_recorded ex_te_linear_more False = False
   \<and> \<not> recorded_same_invocation ex_generator_recorded ex_Linear ex_te_linear_more
   \<and> is_module_already_gen ex_generator_recorded ex_Linear ex_te_linear_more"
  by code_simp

text \<open>The input test stops at the shorter list: a list passes against any extension.\<close>

lemma same_input_prefix: "same_input xs (xs @ ys)" and "same_input (xs @ ys) xs"
  unfolding same_input_def by (induction xs) auto

text \<open>
  Claim C5. Two elements of the same module whose input lists differ must give two module
  instructions. Here the second call of the linear layer has the input list \<open>[1, 5]\<close>
  where the first has \<open>[1]\<close>, and the same output object: the duplicate test pairs the
  two lists with \<^verbatim>\<open>zip\<close>, finds the recorded call "the same", and the second element is
  skipped; the schedule holds one module instruction.
\<close>

theorem gen_schedule_prefix_inputs_skipped:
  "module_input_list ex_te_linear \<noteq> module_input_list ex_te_linear_more
   \<and> gen_schedule ex_generator ex_trace_two_calls (new_CodegenModule ex_store)
       = Inr (ex_generator_recorded, (Created 0, ex_store_fc),
              [module_inst ex_trace (FnModule ex_Linear) ex_te_linear])"
  by code_simp

section \<open>Properties of the hierarchy builder\<close>

lemma map_of_dict_set: "map_of (dict_set k v d) = (map_of d)(k \<mapsto> v)"
  by (induction d) (auto simp: fun_eq_iff)


section \<open>Properties of the resolver\<close>

lemma const_index_list_consumed:
  "const_index_list sched tr =
     filter (\<lambda>i. i \<notin> set (map output_index sched))
       (filter (\<lambda>i. i \<notin> set (model_input_index_list tr)) (consumed sched))"
  by (simp add: const_index_list_def consumed_def Let_def)

lemma set_const_index_list:
  "set (const_index_list sched tr) =
     {c \<in> set (consumed sched). c \<notin> set (model_input_index_list tr)
                                \<and> c \<notin> set (map output_index sched)}"
  by (auto simp: const_index_list_consumed)

lemma index_map_dict_Inl:
  "index_map_dict im cs d = Inl e \<Longrightarrow> e = KeyError \<and> (\<exists>c \<in> set cs. map_of im c = None)"
  by (induction cs arbitrary: d) (auto split: option.splits)

lemma index_map_dict_Inr:
  "index_map_dict im cs d = Inr d' \<Longrightarrow>
     (\<forall>c \<in> set cs. map_of im c \<noteq> None)
     \<and> map_of d' = (\<lambda>k. if k \<in> set cs then map_of im k else map_of d k)"
proof (induction cs arbitrary: d)
  case Nil
  then show ?case by simp
next
  case (Cons c cs)
  from Cons.prems obtain v where v: "map_of im c = Some v"
    and r: "index_map_dict im cs (dict_set c v d) = Inr d'"
    by (auto split: option.splits)
  from Cons.IH [OF r] v show ?case
    by (auto simp: map_of_dict_set fun_eq_iff)
qed

lemma index_map_dict_total:
  "\<forall>c \<in> set cs. map_of im c \<noteq> None \<Longrightarrow> \<exists>d'. index_map_dict im cs d = Inr d'"
  by (induction cs arbitrary: d) auto

lemma item_dict_Inl:
  "item_dict d = Inl e \<Longrightarrow> e = ItemError \<and> (\<exists>kv \<in> set d. item (snd kv) = Inl ItemError)"
proof (induction d)
  case Nil
  then show ?case by simp
next
  case (Cons kv d)
  have iv: "item v = Inl e' \<Longrightarrow> e' = ItemError" for v e'
    by (cases v) (auto split: list.splits)
  from Cons show ?case
    by (auto split: sum.splits dest: iv)
qed

lemma item_dict_Inr:
  "item_dict d = Inr d' \<Longrightarrow>
     map fst d' = map fst d
     \<and> (\<forall>kv \<in> set d. \<exists>v. item (snd kv) = Inr v)
     \<and> (\<forall>k. map_of d' k = (case map_of d k of None \<Rightarrow> None
                              | Some v \<Rightarrow> (case item v of Inr v' \<Rightarrow> Some v' | Inl e \<Rightarrow> None)))"
proof (induction d arbitrary: d')
  case Nil
  then show ?case by simp
next
  case (Cons kv d)
  from Cons.prems obtain v d1 where v: "item (snd kv) = Inr v"
    and r: "item_dict d = Inr d1" and d': "d' = (fst kv, v) # d1"
    by (auto split: sum.splits)
  from Cons.IH [OF r] v d' show ?case
    by (cases kv) auto
qed

lemma item_dict_total:
  "\<forall>kv \<in> set d. \<exists>v. item (snd kv) = Inr v \<Longrightarrow> \<exists>d'. item_dict d = Inr d'"
  by (induction d) auto

lemma concat_map_cong:
  "(\<And>x. x \<in> set xs \<Longrightarrow> f x = g x) \<Longrightarrow> concat (map f xs) = concat (map g xs)"
  by (induction xs) auto

lemma flatten_solve:
  "flatten (solve_consts_params a consts params)
     = map (\<lambda>c. solve_leaf c consts params) (flatten a)"
proof (induction a)
  case (Leaf x)
  show ?case by simp
next
  case (AList xs)
  show ?case
    by (simp add: map_concat comp_def, rule concat_map_cong, simp add: AList)
next
  case (ATuple xs)
  show ?case
    by (simp add: map_concat comp_def, rule concat_map_cong, simp add: ATuple)
next
  case (ADict kvs)
  have "flatten (solve_consts_params (snd kv) consts params)
      = map (\<lambda>c. solve_leaf c consts params) (flatten (snd kv))" if "kv \<in> set kvs" for kv
    using that ADict [of kv "snd kv"] by (simp add: snds.intros)
  then show ?case
    by (simp add: map_concat comp_def, intro concat_map_cong, simp)
qed

lemma flatten_list_solve:
  "flatten_list (map (\<lambda>a. solve_consts_params a consts params) xs)
     = map (\<lambda>c. solve_leaf c consts params) (flatten_list xs)"
  by (simp add: flatten_list_def map_concat comp_def flatten_solve)

lemma flatten_list_solve_snd:
  "flatten_list (map (\<lambda>kv. solve_consts_params (snd kv) consts params) kvs)
     = map (\<lambda>c. solve_leaf c consts params) (flatten_list (map snd kvs))"
  by (simp add: flatten_list_def map_concat comp_def flatten_solve)

lemma flatten_list_concat:
  "flatten_list (concat xss) = concat (map flatten_list xss)"
  by (induction xss) (simp_all add: flatten_list_def)

lemma consumed_apply:
  "consumed (apply_consts_params sched consts params)
     = map (\<lambda>c. solve_leaf c consts params) (consumed sched)"
  unfolding consumed_def apply_consts_params_def flatten_list_concat
  by (simp add: comp_def map_concat flatten_list_solve flatten_list_solve_snd)

lemma outputs_apply:
  "map output_index (apply_consts_params sched consts params) = map output_index sched"
  by (simp add: apply_consts_params_def comp_def)

lemma set_fst_dict_set: "fst ` set (dict_set k v d) = insert k (fst ` set d)"
  by (induction d) auto

lemma distinct_dict_set: "distinct (map fst d) \<Longrightarrow> distinct (map fst (dict_set k v d))"
  by (induction d) (auto simp: set_fst_dict_set)

lemma index_map_dict_distinct:
  "distinct (map fst d) \<Longrightarrow> index_map_dict im cs d = Inr d' \<Longrightarrow> distinct (map fst d')"
proof (induction cs arbitrary: d)
  case Nil
  then show ?case by simp
next
  case (Cons c cs)
  from Cons.prems(2) obtain v where
    r: "index_map_dict im cs (dict_set c v d) = Inr d'" by (auto split: option.splits)
  from Cons.prems(1) have "distinct (map fst (dict_set c v d))" by (rule distinct_dict_set)
  from Cons.IH [OF this r] show ?case .
qed

lemma index_map_dict_keys:
  "index_map_dict im cs d = Inr d' \<Longrightarrow> fst ` set d' = fst ` set d \<union> set cs"
  by (induction cs arbitrary: d) (auto split: option.splits simp: set_fst_dict_set)

text \<open>What a successful dictionary comprehension over the index map holds.\<close>

lemma index_map_dict_empty_Inr:
  assumes "index_map_dict im cs [] = Inr d'"
  shows "\<forall>c \<in> set cs. map_of im c \<noteq> None"
    and "fst ` set d' = set cs"
    and "\<And>k v. (k, v) \<in> set d' \<longleftrightarrow> k \<in> set cs \<and> map_of im k = Some v"
proof -
  from index_map_dict_Inr [OF assms] have f: "\<forall>c \<in> set cs. map_of im c \<noteq> None"
    and m: "\<And>k. map_of d' k = (if k \<in> set cs then map_of im k else None)" by simp_all
  show "\<forall>c \<in> set cs. map_of im c \<noteq> None" by (rule f)
  show "fst ` set d' = set cs" using index_map_dict_keys [OF assms] by simp
  have dist: "distinct (map fst d')" using index_map_dict_distinct [OF _ assms] by simp
  show "(k, v) \<in> set d' \<longleftrightarrow> k \<in> set cs \<and> map_of im k = Some v" for k v
    using map_of_eq_Some_iff [OF dist, of k v] m by (auto split: if_splits)
qed

lemma gen_constants_parameters_Inr_unfold:
  assumes "gen_constants_parameters sched tr = Inr (cmap, pmap)"
  shows "\<exists>consts0.
           index_map_dict (index_map tr)
             (filter (\<lambda>c. \<not> isinstance_Parameter c) (const_index_list sched tr)) [] = Inr consts0
           \<and> index_map_dict (index_map tr)
               (filter isinstance_Parameter (const_index_list sched tr)) [] = Inr pmap
           \<and> item_dict consts0 = Inr cmap
           \<and> PyNone \<notin> set (map fst cmap)"
  using assms
  by (auto simp: gen_constants_parameters_def Let_def split: sum.splits if_splits)

lemma gen_constants_parameters_Inr:
  assumes "gen_constants_parameters sched tr = Inr (cmap, pmap)"
  shows "\<forall>c \<in> set (const_index_list sched tr). \<not> isinstance_Parameter c \<longrightarrow>
           (\<exists>v v'. map_of (index_map tr) c = Some v \<and> item v = Inr v' \<and> map_of cmap c = Some v')"
    and "\<forall>k. k \<notin> set (const_index_list sched tr) \<or> isinstance_Parameter k \<longrightarrow> map_of cmap k = None"
    and "\<forall>k. \<not> isinstance_Parameter k \<longrightarrow> map_of pmap k = None"
proof -
  let ?cs = "const_index_list sched tr"
  let ?im = "index_map tr"
  from gen_constants_parameters_Inr_unfold [OF assms] obtain consts0 where
    c0: "index_map_dict ?im (filter (\<lambda>c. \<not> isinstance_Parameter c) ?cs) [] = Inr consts0" and
    p0: "index_map_dict ?im (filter isinstance_Parameter ?cs) [] = Inr pmap" and
    it: "item_dict consts0 = Inr cmap" by blast
  from index_map_dict_Inr [OF c0] have
    f0: "\<forall>c \<in> set (filter (\<lambda>c. \<not> isinstance_Parameter c) ?cs). map_of ?im c \<noteq> None" and
    m0: "\<And>k. map_of consts0 k
           = (if k \<in> set (filter (\<lambda>c. \<not> isinstance_Parameter c) ?cs) then map_of ?im k else None)"
    by simp_all
  from item_dict_Inr [OF it] have
    i1: "\<forall>kv \<in> set consts0. \<exists>v. item (snd kv) = Inr v" and
    i2: "\<And>k. map_of cmap k = (case map_of consts0 k of None \<Rightarrow> None
                              | Some v \<Rightarrow> (case item v of Inr v' \<Rightarrow> Some v' | Inl e \<Rightarrow> None))"
    by simp_all
  show "\<forall>c \<in> set ?cs. \<not> isinstance_Parameter c \<longrightarrow>
           (\<exists>v v'. map_of ?im c = Some v \<and> item v = Inr v' \<and> map_of cmap c = Some v')"
  proof (intro ballI impI)
    fix c assume c: "c \<in> set ?cs" "\<not> isinstance_Parameter c"
    with f0 obtain v where v: "map_of ?im c = Some v" by auto
    with c m0 [of c] have mc: "map_of consts0 c = Some v" by simp
    then have "(c, v) \<in> set consts0" by (rule map_of_SomeD)
    with i1 obtain v' where v': "item v = Inr v'" by force
    from i2 [of c] mc v' have "map_of cmap c = Some v'" by simp
    with v v' show "\<exists>v v'. map_of ?im c = Some v \<and> item v = Inr v' \<and> map_of cmap c = Some v'"
      by blast
  qed
  show "\<forall>k. k \<notin> set ?cs \<or> isinstance_Parameter k \<longrightarrow> map_of cmap k = None"
    using m0 i2 by auto
  from index_map_dict_Inr [OF p0] have
    "\<And>k. map_of pmap k = (if k \<in> set (filter isinstance_Parameter ?cs) then map_of ?im k else None)"
    by simp
  then show "\<forall>k. \<not> isinstance_Parameter k \<longrightarrow> map_of pmap k = None" by simp
qed

lemma gen_constants_parameters_RuntimeError:
  "(gen_constants_parameters sched tr = Inl RuntimeError) =
     ((\<forall>c \<in> set (const_index_list sched tr). map_of (index_map tr) c \<noteq> None)
      \<and> (\<forall>c \<in> set (const_index_list sched tr). \<not> isinstance_Parameter c \<longrightarrow>
            (\<exists>v. item (the (map_of (index_map tr) c)) = Inr v))
      \<and> PyNone \<in> set (const_index_list sched tr))"
  (is "?L = (?A \<and> ?B \<and> ?C)")
proof
  let ?cs = "const_index_list sched tr"
  let ?im = "index_map tr"
  let ?ncs = "filter (\<lambda>c. \<not> isinstance_Parameter c) ?cs"
  let ?pcs = "filter isinstance_Parameter ?cs"
  assume L: ?L
  have k: "index_map_dict ?im xs [] \<noteq> Inl RuntimeError" for xs
    using index_map_dict_Inl [of ?im xs "[]" RuntimeError] by auto
  have i: "item_dict d \<noteq> Inl RuntimeError" for d
    using item_dict_Inl [of d RuntimeError] by auto
  from L k i obtain consts0 pmap cmap where
    c0: "index_map_dict ?im ?ncs [] = Inr consts0" and
    p0: "index_map_dict ?im ?pcs [] = Inr pmap" and
    it: "item_dict consts0 = Inr cmap" and
    nk: "PyNone \<in> set (map fst cmap)"
    by (auto simp: gen_constants_parameters_def Let_def split: sum.splits if_splits)
  from index_map_dict_empty_Inr(1) [OF c0] index_map_dict_empty_Inr(1) [OF p0]
  have A: ?A by auto
  have B: ?B
  proof (intro ballI impI)
    fix c assume c: "c \<in> set ?cs" "\<not> isinstance_Parameter c"
    with A obtain v where v: "map_of ?im c = Some v" by auto
    with c index_map_dict_empty_Inr(3) [OF c0, of c v] have "(c, v) \<in> set consts0" by simp
    with item_dict_Inr [OF it] obtain v' where "item v = Inr v'" by force
    with v show "\<exists>v. item (the (map_of ?im c)) = Inr v" by simp
  qed
  from item_dict_Inr [OF it] have "map fst cmap = map fst consts0" by simp
  with nk have "PyNone \<in> fst ` set consts0" by (metis set_map)
  with index_map_dict_empty_Inr(2) [OF c0] have C: ?C by auto
  from A B C show "?A \<and> ?B \<and> ?C" by blast
next
  let ?cs = "const_index_list sched tr"
  let ?im = "index_map tr"
  let ?ncs = "filter (\<lambda>c. \<not> isinstance_Parameter c) ?cs"
  let ?pcs = "filter isinstance_Parameter ?cs"
  assume R: "?A \<and> ?B \<and> ?C"
  then have A: ?A and B: ?B and C: ?C by blast+
  from A have "\<forall>c \<in> set ?ncs. map_of ?im c \<noteq> None" by simp
  from index_map_dict_total [OF this] obtain consts0 where
    c0: "index_map_dict ?im ?ncs [] = Inr consts0" by blast
  from A have "\<forall>c \<in> set ?pcs. map_of ?im c \<noteq> None" by simp
  from index_map_dict_total [OF this] obtain pmap where
    p0: "index_map_dict ?im ?pcs [] = Inr pmap" by blast
  have "\<forall>kv \<in> set consts0. \<exists>v. item (snd kv) = Inr v"
  proof
    fix kv assume "kv \<in> set consts0"
    then have "(fst kv, snd kv) \<in> set consts0" by simp
    with index_map_dict_empty_Inr(3) [OF c0, of "fst kv" "snd kv"]
    have "fst kv \<in> set ?ncs" "map_of ?im (fst kv) = Some (snd kv)" by simp_all
    with B show "\<exists>v. item (snd kv) = Inr v" by force
  qed
  from item_dict_total [OF this] obtain cmap where it: "item_dict consts0 = Inr cmap" by blast
  from C have "PyNone \<in> set ?ncs" by simp
  with index_map_dict_empty_Inr(2) [OF c0] have "PyNone \<in> fst ` set consts0" by simp
  moreover from item_dict_Inr [OF it] have "map fst cmap = map fst consts0" by simp
  ultimately have "PyNone \<in> set (map fst cmap)" by (metis set_map)
  with c0 p0 it show ?L
    by (simp add: gen_constants_parameters_def Let_def)
qed

lemma gen_constants_parameters_Inr_iff:
  "(\<exists>cmap pmap. gen_constants_parameters sched tr = Inr (cmap, pmap)) =
     ((\<forall>c \<in> set (const_index_list sched tr). map_of (index_map tr) c \<noteq> None)
      \<and> (\<forall>c \<in> set (const_index_list sched tr). \<not> isinstance_Parameter c \<longrightarrow>
            (\<exists>v. item (the (map_of (index_map tr) c)) = Inr v))
      \<and> PyNone \<notin> set (const_index_list sched tr))"
  (is "?L = (?A \<and> ?B \<and> ?C)")
proof
  let ?cs = "const_index_list sched tr"
  let ?im = "index_map tr"
  let ?ncs = "filter (\<lambda>c. \<not> isinstance_Parameter c) ?cs"
  let ?pcs = "filter isinstance_Parameter ?cs"
  assume ?L
  then obtain cmap pmap where r: "gen_constants_parameters sched tr = Inr (cmap, pmap)"
    by blast
  from gen_constants_parameters_Inr_unfold [OF r] obtain consts0 where
    c0: "index_map_dict ?im ?ncs [] = Inr consts0" and
    p0: "index_map_dict ?im ?pcs [] = Inr pmap" and
    it: "item_dict consts0 = Inr cmap" and
    nk: "PyNone \<notin> set (map fst cmap)"
    by blast
  from index_map_dict_empty_Inr(1) [OF c0] index_map_dict_empty_Inr(1) [OF p0]
  have A: ?A by auto
  have B: ?B
  proof (intro ballI impI)
    fix c assume c: "c \<in> set ?cs" "\<not> isinstance_Parameter c"
    with A obtain v where v: "map_of ?im c = Some v" by auto
    with c index_map_dict_empty_Inr(3) [OF c0, of c v] have "(c, v) \<in> set consts0" by simp
    with item_dict_Inr [OF it] obtain v' where "item v = Inr v'" by force
    with v show "\<exists>v. item (the (map_of ?im c)) = Inr v" by simp
  qed
  from item_dict_Inr [OF it] have "map fst cmap = map fst consts0" by simp
  with nk have "PyNone \<notin> fst ` set consts0" by (metis set_map)
  with index_map_dict_empty_Inr(2) [OF c0] have C: ?C by auto
  from A B C show "?A \<and> ?B \<and> ?C" by blast
next
  let ?cs = "const_index_list sched tr"
  let ?im = "index_map tr"
  let ?ncs = "filter (\<lambda>c. \<not> isinstance_Parameter c) ?cs"
  let ?pcs = "filter isinstance_Parameter ?cs"
  assume R: "?A \<and> ?B \<and> ?C"
  then have A: ?A and B: ?B and C: ?C by blast+
  from A have "\<forall>c \<in> set ?ncs. map_of ?im c \<noteq> None" by simp
  from index_map_dict_total [OF this] obtain consts0 where
    c0: "index_map_dict ?im ?ncs [] = Inr consts0" by blast
  from A have "\<forall>c \<in> set ?pcs. map_of ?im c \<noteq> None" by simp
  from index_map_dict_total [OF this] obtain pmap where
    p0: "index_map_dict ?im ?pcs [] = Inr pmap" by blast
  have "\<forall>kv \<in> set consts0. \<exists>v. item (snd kv) = Inr v"
  proof
    fix kv assume "kv \<in> set consts0"
    then have "(fst kv, snd kv) \<in> set consts0" by simp
    with index_map_dict_empty_Inr(3) [OF c0, of "fst kv" "snd kv"]
    have "fst kv \<in> set ?ncs" "map_of ?im (fst kv) = Some (snd kv)" by simp_all
    with B show "\<exists>v. item (snd kv) = Inr v" by force
  qed
  from item_dict_total [OF this] obtain cmap where it: "item_dict consts0 = Inr cmap" by blast
  from C have "PyNone \<notin> set ?ncs" by simp
  with index_map_dict_empty_Inr(2) [OF c0] have "PyNone \<notin> fst ` set consts0" by simp
  moreover from item_dict_Inr [OF it] have "map fst cmap = map fst consts0" by simp
  ultimately have "PyNone \<notin> set (map fst cmap)" by (metis set_map)
  with c0 p0 it have "gen_constants_parameters sched tr = Inr (cmap, pmap)"
    by (simp add: gen_constants_parameters_def Let_def)
  then show ?L by blast
qed

text \<open>
  Claim C4 (amended). Take a schedule none of whose candidate free references is a
  learnable parameter or has one behind it. Constant extraction ends with the fatal
  error of \<^verbatim>\<open>_gen_constants_parameters\<close> exactly when none itself is one of the
  candidates (it is then a key of the constants map), every candidate has an entry in
  the index map and no value is a tensor of other than one element; the value behind a
  constant being none raises nothing. Extraction succeeds exactly when every candidate
  has an entry in the index map, no value is a tensor of other than one element and none
  is not a candidate; every candidate is then mapped by the constants map to its value of
  the index map, a tensor of one element replaced by its number.
\<close>

theorem gen_constants_parameters_fatal_iff_none_key:
  "((\<forall>c \<in> set (const_index_list sched tr).
        \<not> isinstance_Parameter c
        \<and> (\<forall>v. map_of (index_map tr) c = Some v \<longrightarrow> \<not> isinstance_Parameter v)) \<longrightarrow>
      ((gen_constants_parameters sched tr = Inl RuntimeError) =
         ((\<forall>c \<in> set (const_index_list sched tr). map_of (index_map tr) c \<noteq> None)
          \<and> (\<forall>c \<in> set (const_index_list sched tr).
                \<exists>v. item (the (map_of (index_map tr) c)) = Inr v)
          \<and> PyNone \<in> set (const_index_list sched tr)))
      \<and> ((\<exists>cmap pmap. gen_constants_parameters sched tr = Inr (cmap, pmap)) =
         ((\<forall>c \<in> set (const_index_list sched tr). map_of (index_map tr) c \<noteq> None)
          \<and> (\<forall>c \<in> set (const_index_list sched tr).
                \<exists>v. item (the (map_of (index_map tr) c)) = Inr v)
          \<and> PyNone \<notin> set (const_index_list sched tr)))
      \<and> (gen_constants_parameters sched tr = Inr (cmap, pmap) \<longrightarrow>
           (\<forall>c \<in> set (const_index_list sched tr).
              \<exists>v v'. map_of (index_map tr) c = Some v \<and> item v = Inr v'
                      \<and> map_of cmap c = Some v')))
   \<and> item (Tensor [x]) = Inr (Num x) \<and> item PyNone = Inr PyNone"
proof (intro conjI impI)
  assume h: "\<forall>c \<in> set (const_index_list sched tr).
        \<not> isinstance_Parameter c
        \<and> (\<forall>v. map_of (index_map tr) c = Some v \<longrightarrow> \<not> isinstance_Parameter v)"
  then show "(gen_constants_parameters sched tr = Inl RuntimeError) =
         ((\<forall>c \<in> set (const_index_list sched tr). map_of (index_map tr) c \<noteq> None)
          \<and> (\<forall>c \<in> set (const_index_list sched tr).
                \<exists>v. item (the (map_of (index_map tr) c)) = Inr v)
          \<and> PyNone \<in> set (const_index_list sched tr))"
    unfolding gen_constants_parameters_RuntimeError by blast
  from h show "(\<exists>cmap pmap. gen_constants_parameters sched tr = Inr (cmap, pmap)) =
         ((\<forall>c \<in> set (const_index_list sched tr). map_of (index_map tr) c \<noteq> None)
          \<and> (\<forall>c \<in> set (const_index_list sched tr).
                \<exists>v. item (the (map_of (index_map tr) c)) = Inr v)
          \<and> PyNone \<notin> set (const_index_list sched tr))"
    unfolding gen_constants_parameters_Inr_iff by blast
  assume "gen_constants_parameters sched tr = Inr (cmap, pmap)"
  from gen_constants_parameters_Inr(1) [OF this] h
  show "\<forall>c \<in> set (const_index_list sched tr).
              \<exists>v v'. map_of (index_map tr) c = Some v \<and> item v = Inr v'
                      \<and> map_of cmap c = Some v'"
    by blast
qed simp_all

theorem gen_constants_parameters_fatal_iff_none_key_witness:
  "list_all (\<lambda>c. map_of (index_map ex_trace_none_key) c \<noteq> None)
      (const_index_list ex_schedule_none_ref ex_trace_none_key)
   \<and> PyNone \<in> set (const_index_list ex_schedule_none_ref ex_trace_none_key)
   \<and> gen_constants_parameters ex_schedule_none_ref ex_trace_none_key = Inl RuntimeError
   \<and> const_index_list ex_schedule ex_trace = [Index 9]
   \<and> map_of (index_map ex_trace) (Index 9) = Some (Tensor [3])
   \<and> (\<exists>cmap pmap. gen_constants_parameters ex_schedule ex_trace = Inr (cmap, pmap))
   \<and> gen_constants_parameters ex_schedule ex_trace = Inr ([(Index 9, Num 3)], [])
   \<and> (\<exists>v v'. map_of (index_map ex_trace) (Index 9) = Some v \<and> item v = Inr v'
              \<and> map_of [(Index 9, Num 3)] (Index 9) = Some v')"
proof -
  have k: "const_index_list ex_schedule_none_ref ex_trace_none_key = [PyNone]" by code_simp
  have kv: "map_of (index_map ex_trace_none_key) PyNone = Some (Num 0)" by code_simp
  have e: "const_index_list ex_schedule ex_trace = [Index 9]" by code_simp
  have ev: "map_of (index_map ex_trace) (Index 9) = Some (Tensor [3])" by code_simp
  have d: "gen_constants_parameters ex_schedule ex_trace = Inr ([(Index 9, Num 3)], [])"
    by code_simp
  have h1: "\<forall>c \<in> set (const_index_list ex_schedule_none_ref ex_trace_none_key).
        \<not> isinstance_Parameter c
        \<and> (\<forall>v. map_of (index_map ex_trace_none_key) c = Some v \<longrightarrow> \<not> isinstance_Parameter v)"
    by (simp add: k kv)
  have h2: "\<forall>c \<in> set (const_index_list ex_schedule ex_trace).
        \<not> isinstance_Parameter c
        \<and> (\<forall>v. map_of (index_map ex_trace) c = Some v \<longrightarrow> \<not> isinstance_Parameter v)"
    by (simp add: e ev)
  have a: "\<forall>c \<in> set (const_index_list ex_schedule_none_ref ex_trace_none_key).
             map_of (index_map ex_trace_none_key) c \<noteq> None" by (simp add: k kv)
  have b: "\<forall>c \<in> set (const_index_list ex_schedule_none_ref ex_trace_none_key).
               \<exists>v. item (the (map_of (index_map ex_trace_none_key) c)) = Inr v"
    by (simp add: k kv)
  have c: "PyNone \<in> set (const_index_list ex_schedule_none_ref ex_trace_none_key)"
    by (simp add: k)
  have a2: "\<forall>c \<in> set (const_index_list ex_schedule ex_trace).
             map_of (index_map ex_trace) c \<noteq> None" by (simp add: e ev)
  have b2: "\<forall>c \<in> set (const_index_list ex_schedule ex_trace).
               \<exists>v. item (the (map_of (index_map ex_trace) c)) = Inr v"
    by (simp add: e ev)
  have c2: "PyNone \<notin> set (const_index_list ex_schedule ex_trace)"
    by (simp add: e)
  note T1 = gen_constants_parameters_fatal_iff_none_key
              [of ex_schedule_none_ref ex_trace_none_key "[]" "[]" 0]
  note T2 = gen_constants_parameters_fatal_iff_none_key
              [of ex_schedule ex_trace "[(Index 9, Num 3)]" "[]" 0]
  from T1 h1 a b c have r1:
    "gen_constants_parameters ex_schedule_none_ref ex_trace_none_key = Inl RuntimeError"
    by blast
  from T2 h2 a2 b2 c2 have r3:
    "\<exists>cmap pmap. gen_constants_parameters ex_schedule ex_trace = Inr (cmap, pmap)"
    by blast
  from T2 h2 d e have r2:
    "\<exists>v v'. map_of (index_map ex_trace) (Index 9) = Some v \<and> item v = Inr v'
              \<and> map_of [(Index 9, Num 3)] (Index 9) = Some v'"
    by (metis list.set_intros(1))
  from a have a': "list_all (\<lambda>c. map_of (index_map ex_trace_none_key) c \<noteq> None)
      (const_index_list ex_schedule_none_ref ex_trace_none_key)" by (simp add: list_all_iff)
  from a' c r1 e ev r3 d r2 show ?thesis by blast
qed

text \<open>
  The claim as stated fails both ways on a constant reference 9: with none as the value
  behind it extraction succeeds and keeps none as the constant, and with a tensor of two
  elements behind it, a value that is not none, extraction does not succeed.
\<close>

theorem gen_constants_parameters_none_value_succeeds:
  "map_of (index_map ex_trace_none_value) (Index 9) = Some PyNone
   \<and> gen_constants_parameters ex_schedule ex_trace_none_value = Inr ([(Index 9, PyNone)], [])
   \<and> map_of (index_map ex_trace_tensor) (Index 9) = Some (Tensor [1, 2])
   \<and> gen_constants_parameters ex_schedule ex_trace_tensor = Inl ItemError"
  by code_simp

text \<open>
  Claim C3. A free reference goes to the parameters map when the value behind it is a
  learnable parameter. Here the value behind the free reference 9 is a parameter: the
  partition tests the reference itself, which is an index and not a parameter, so 9 is
  placed among the constants (and its one-element value turned into a number) and the
  parameters map stays empty; with a parameter of two elements behind it, extraction
  ends in the error of \<^verbatim>\<open>item()\<close>.
\<close>

theorem gen_constants_parameters_parameter_as_constant:
  "const_index_list ex_schedule ex_trace_parameter = [Index 9]
   \<and> map_of (index_map ex_trace_parameter) (Index 9) = Some (Parameter [3])
   \<and> gen_constants_parameters ex_schedule ex_trace_parameter = Inr ([(Index 9, Num 3)], [])
   \<and> map_of (index_map ex_trace_weight) (Index 9) = Some (Parameter [1, 2])
   \<and> gen_constants_parameters ex_schedule ex_trace_weight = Inl ItemError"
  by code_simp

section \<open>Properties of the generated model\<close>

lemma gen_model_Inr_unfold:
  assumes "gen_model g tr h = Inr (g', h', cm)"
  shows "\<exists>om raw cmap pmap.
           gen_schedule g tr (new_CodegenModule h) = Inr (g', om, raw)
           \<and> gen_constants_parameters raw tr = Inr (cmap, pmap)
           \<and> cm = \<lparr>model_object = fst om, schedule = apply_consts_params raw cmap pmap,
                    input_index_list = model_input_index_list tr,
                    output_index_list = model_output_index_list tr\<rparr>"
  using assms by (auto simp: gen_model_def split: sum.splits prod.splits)

lemma solve_leaf_kept:
  "map_of cmap c = None \<Longrightarrow> map_of pmap c = None \<Longrightarrow> solve_leaf c cmap pmap = c"
  by (simp add: solve_leaf_def)

lemma solve_leaf_const:
  "isinstance_Index c \<Longrightarrow> map_of cmap c = Some v \<Longrightarrow> solve_leaf c cmap pmap = v"
  by (simp add: solve_leaf_def)

lemma solve_leaf_other: "\<not> isinstance_Index c \<Longrightarrow> solve_leaf c cmap pmap = c"
  by (simp add: solve_leaf_def)

lemma isinstance_Index_not_Parameter: "isinstance_Index c \<Longrightarrow> \<not> isinstance_Parameter c"
  by (cases c) simp_all

lemma item_not_Index: "item v = Inr w \<Longrightarrow> \<not> isinstance_Index v \<Longrightarrow> \<not> isinstance_Index w"
  by (cases v) (auto split: list.splits)

text \<open>
  Claim C1 (amended). After a successful \<^verbatim>\<open>gen_model\<close>, the arguments of the final
  schedule are those of the raw schedule with every leaf resolved, and every index
  reference the raw schedule consumes falls in exactly one of two cases: it is a
  top-level model input or the output of some instruction of the schedule (of any
  position, and possibly both), and is left in place; or it is neither, has a value in
  the index map, and is replaced by its resolved value from the constants or the
  parameters map; behind a value that is not a learnable parameter this is the value of
  the index map, a one-element tensor replaced by its number. When no value of the
  index map is itself an index reference, the arguments of the final schedule hold no
  index reference that is neither a model input nor an instruction's output.
\<close>

theorem gen_model_references_resolved:
  assumes "gen_model g tr h = Inr (g', h', cm)"
  shows "(\<exists>om raw cmap pmap.
           gen_schedule g tr (new_CodegenModule h) = Inr (g', om, raw)
           \<and> gen_constants_parameters raw tr = Inr (cmap, pmap)
           \<and> map output_index (schedule cm) = map output_index raw
           \<and> consumed (schedule cm) = map (\<lambda>c. solve_leaf c cmap pmap) (consumed raw)
           \<and> (\<forall>c \<in> set (consumed raw). isinstance_Index c \<longrightarrow>
                (if c \<in> set (model_input_index_list tr) \<or> c \<in> set (map output_index raw)
                 then solve_leaf c cmap pmap = c
                 else (\<exists>v w. map_of (index_map tr) c = Some v
                              \<and> (map_of cmap c = Some w \<or> map_of pmap c = Some w)
                              \<and> solve_leaf c cmap pmap = w
                              \<and> (\<not> isinstance_Parameter v \<longrightarrow> item v = Inr w)))))
         \<and> ((\<forall>kv \<in> set (index_map tr). \<not> isinstance_Index (snd kv)) \<longrightarrow>
              (\<forall>c \<in> set (consumed (schedule cm)). isinstance_Index c \<longrightarrow>
                 c \<in> set (model_input_index_list tr)
                 \<or> c \<in> set (map output_index (schedule cm))))"
proof -
  from gen_model_Inr_unfold [OF assms] obtain om raw cmap pmap where
    gs: "gen_schedule g tr (new_CodegenModule h) = Inr (g', om, raw)" and
    gc: "gen_constants_parameters raw tr = Inr (cmap, pmap)" and
    cm: "schedule cm = apply_consts_params raw cmap pmap"
    by auto
  have kept: "solve_leaf c cmap pmap = c"
    if ix: "isinstance_Index c"
      and io: "c \<in> set (model_input_index_list tr) \<or> c \<in> set (map output_index raw)" for c
  proof -
    from io have "c \<notin> set (const_index_list raw tr)" by (auto simp: set_const_index_list)
    with gen_constants_parameters_Inr(2) [OF gc] have "map_of cmap c = None" by blast
    moreover from gen_constants_parameters_Inr(3) [OF gc] ix
    have "map_of pmap c = None" by (blast dest: isinstance_Index_not_Parameter)
    ultimately show ?thesis by (simp add: solve_leaf_kept)
  qed
  have replaced: "\<exists>v w. map_of (index_map tr) c = Some v \<and> item v = Inr w
                        \<and> map_of cmap c = Some w \<and> solve_leaf c cmap pmap = w"
    if c: "c \<in> set (consumed raw)" and ix: "isinstance_Index c"
      and io: "\<not> (c \<in> set (model_input_index_list tr) \<or> c \<in> set (map output_index raw))"
    for c
  proof -
    from c io have "c \<in> set (const_index_list raw tr)" by (auto simp: set_const_index_list)
    with gen_constants_parameters_Inr(1) [OF gc] ix obtain v w where
      "map_of (index_map tr) c = Some v" "item v = Inr w" "map_of cmap c = Some w"
      by (blast dest: isinstance_Index_not_Parameter)
    with ix show ?thesis by (auto simp: solve_leaf_const)
  qed
  have o: "map output_index (schedule cm) = map output_index raw"
    by (simp only: cm outputs_apply)
  have k: "consumed (schedule cm) = map (\<lambda>c. solve_leaf c cmap pmap) (consumed raw)"
    by (simp only: cm consumed_apply)
  have r: "\<forall>c \<in> set (consumed raw). isinstance_Index c \<longrightarrow>
                (if c \<in> set (model_input_index_list tr) \<or> c \<in> set (map output_index raw)
                 then solve_leaf c cmap pmap = c
                 else (\<exists>v w. map_of (index_map tr) c = Some v
                              \<and> (map_of cmap c = Some w \<or> map_of pmap c = Some w)
                              \<and> solve_leaf c cmap pmap = w
                              \<and> (\<not> isinstance_Parameter v \<longrightarrow> item v = Inr w)))"
  proof (intro ballI impI)
    fix c assume c: "c \<in> set (consumed raw)" and ix: "isinstance_Index c"
    show "if c \<in> set (model_input_index_list tr) \<or> c \<in> set (map output_index raw)
          then solve_leaf c cmap pmap = c
          else (\<exists>v w. map_of (index_map tr) c = Some v
                       \<and> (map_of cmap c = Some w \<or> map_of pmap c = Some w)
                       \<and> solve_leaf c cmap pmap = w
                       \<and> (\<not> isinstance_Parameter v \<longrightarrow> item v = Inr w))"
    proof (cases "c \<in> set (model_input_index_list tr) \<or> c \<in> set (map output_index raw)")
      case True
      with kept [OF ix] show ?thesis by simp
    next
      case False
      from replaced [OF c ix False] False show ?thesis by auto
    qed
  qed
  have left: "\<forall>c \<in> set (consumed (schedule cm)). isinstance_Index c \<longrightarrow>
                 c \<in> set (model_input_index_list tr)
                 \<or> c \<in> set (map output_index (schedule cm))"
    if noix: "\<forall>kv \<in> set (index_map tr). \<not> isinstance_Index (snd kv)"
  proof (intro ballI impI)
    fix c assume "c \<in> set (consumed (schedule cm))" and ix: "isinstance_Index c"
    then obtain c0 where c0: "c0 \<in> set (consumed raw)" and c: "c = solve_leaf c0 cmap pmap"
      by (auto simp: k)
    have ix0: "isinstance_Index c0"
    proof (rule ccontr)
      assume n: "\<not> isinstance_Index c0"
      then have "c = c0" by (simp add: c solve_leaf_other)
      with ix n show False by simp
    qed
    have "c0 \<in> set (model_input_index_list tr) \<or> c0 \<in> set (map output_index raw)"
    proof (rule ccontr)
      assume io: "\<not> (c0 \<in> set (model_input_index_list tr) \<or> c0 \<in> set (map output_index raw))"
      from replaced [OF c0 ix0 io] obtain v w where
        v: "map_of (index_map tr) c0 = Some v" and w: "item v = Inr w"
        and s: "solve_leaf c0 cmap pmap = w" by blast
      from v have "(c0, v) \<in> set (index_map tr)" by (rule map_of_SomeD)
      with noix have "\<not> isinstance_Index v" by force
      from item_not_Index [OF w this] s c ix show False by simp
    qed
    with kept [OF ix0] c o
    show "c \<in> set (model_input_index_list tr) \<or> c \<in> set (map output_index (schedule cm))"
      by simp
  qed
  from gs gc o k r have
    "\<exists>om raw cmap pmap.
           gen_schedule g tr (new_CodegenModule h) = Inr (g', om, raw)
           \<and> gen_constants_parameters raw tr = Inr (cmap, pmap)
           \<and> map output_index (schedule cm) = map output_index raw
           \<and> consumed (schedule cm) = map (\<lambda>c. solve_leaf c cmap pmap) (consumed raw)
           \<and> (\<forall>c \<in> set (consumed raw). isinstance_Index c \<longrightarrow>
                (if c \<in> set (model_input_index_list tr) \<or> c \<in> set (map output_index raw)
                 then solve_leaf c cmap pmap = c
                 else (\<exists>v w. map_of (index_map tr) c = Some v
                              \<and> (map_of cmap c = Some w \<or> map_of pmap c = Some w)
                              \<and> solve_leaf c cmap pmap = w
                              \<and> (\<not> isinstance_Parameter v \<longrightarrow> item v = Inr w))))"
    by blast
  with left show ?thesis by blast
qed

theorem gen_model_references_resolved_witness:
  "gen_model ex_generator ex_trace ex_store
     = Inr (ex_generator_recorded, ex_store_fc,
            \<lparr>model_object = Created 0,
             schedule =
               [module_inst ex_trace (FnModule ex_Linear) ex_te_linear,
                (torch_fn_instruction ex_te_add)
                  \<lparr>input_args_list := [Leaf (Index 2), AList [Leaf (Num 3)]]\<rparr>],
             input_index_list = [Index 1],
             output_index_list = [Index 3]\<rparr>)
   \<and> (\<exists>raw cmap pmap.
         gen_constants_parameters raw ex_trace = Inr (cmap, pmap)
         \<and> map (\<lambda>c. solve_leaf c cmap pmap) (consumed raw) = [Index 1, Index 2, Num 3])
   \<and> list_all (\<lambda>kv. \<not> isinstance_Index (snd kv)) (index_map ex_trace)
   \<and> list_all (\<lambda>c. c \<in> set (model_input_index_list ex_trace) \<or> c \<in> set [Index 2, Index 3])
        (filter isinstance_Index [Index 1, Index 2, Num 3])"
proof -
  let ?cm = "\<lparr>model_object = Created 0,
             schedule =
               [module_inst ex_trace (FnModule ex_Linear) ex_te_linear,
                (torch_fn_instruction ex_te_add)
                  \<lparr>input_args_list := [Leaf (Index 2), AList [Leaf (Num 3)]]\<rparr>],
             input_index_list = [Index 1],
             output_index_list = [Index 3]\<rparr>"
  have h: "gen_model ex_generator ex_trace ex_store = Inr (ex_generator_recorded, ex_store_fc, ?cm)"
    by code_simp
  have c: "consumed (schedule ?cm) = [Index 1, Index 2, Num 3]" by code_simp
  have o: "map output_index (schedule ?cm) = [Index 2, Index 3]" by code_simp
  have n: "\<forall>kv \<in> set (index_map ex_trace). \<not> isinstance_Index (snd kv)" by code_simp
  note T = gen_model_references_resolved [OF h]
  from T c
  have r1: "\<exists>raw cmap pmap.
         gen_constants_parameters raw ex_trace = Inr (cmap, pmap)
         \<and> map (\<lambda>c. solve_leaf c cmap pmap) (consumed raw) = [Index 1, Index 2, Num 3]"
    by metis
  from T n have "\<forall>c \<in> set (consumed (schedule ?cm)). isinstance_Index c \<longrightarrow>
                 c \<in> set (model_input_index_list ex_trace)
                 \<or> c \<in> set (map output_index (schedule ?cm))"
    by blast
  then have r2: "list_all (\<lambda>c. c \<in> set (model_input_index_list ex_trace)
                              \<or> c \<in> set [Index 2, Index 3])
        (filter isinstance_Index [Index 1, Index 2, Num 3])"
    unfolding c o by (simp add: list_all_iff)
  from n have n': "list_all (\<lambda>kv. \<not> isinstance_Index (snd kv)) (index_map ex_trace)"
    by (simp add: list_all_iff)
  from h r1 n' r2 show ?thesis by blast
qed

text \<open>
  The classification of claim C1 fails on a trace of two calls: the first instruction
  consumes the reference 1, which is no model input, is not replaced, and is the output
  of the second instruction only, so of no earlier one; and the reference 0 that the
  second instruction consumes is a model input and the output of the first instruction
  at once. And on the example trace with the index 9 itself as the value behind the free
  reference 9, the final schedule still holds the reference 9, which is no model input
  and no instruction's output.
\<close>

theorem gen_model_reference_not_produced_earlier:
  "gen_model ex_generator ex_trace_out_of_order ex_store
     = Inr (ex_generator, snd (new_CodegenModule ex_store),
            \<lparr>model_object = Created 0,
             schedule = [torch_fn_instruction ex_te_f, torch_fn_instruction ex_te_g],
             input_index_list = [Index 0],
             output_index_list = [Index 1]\<rparr>)
   \<and> input_args_list (torch_fn_instruction ex_te_f) = [Leaf (Index 1)]
   \<and> Index 1 \<notin> set (model_input_index_list ex_trace_out_of_order)
   \<and> output_index (torch_fn_instruction ex_te_f) = Index 0
   \<and> output_index (torch_fn_instruction ex_te_g) = Index 1
   \<and> input_args_list (torch_fn_instruction ex_te_g) = [Leaf (Index 0)]
   \<and> Index 0 \<in> set (model_input_index_list ex_trace_out_of_order)
   \<and> gen_model ex_generator ex_trace_index_value ex_store
     = Inr (ex_generator_recorded, ex_store_fc,
            \<lparr>model_object = Created 0,
             schedule =
               [module_inst ex_trace (FnModule ex_Linear) ex_te_linear,
                torch_fn_instruction ex_te_add],
             input_index_list = [Index 1],
             output_index_list = [Index 3]\<rparr>)
   \<and> input_args_list (torch_fn_instruction ex_te_add) = [Leaf (Index 2), AList [Leaf (Index 9)]]
   \<and> Index 9 \<notin> set (model_input_index_list ex_trace_index_value)
   \<and> Index 9 \<noteq> output_index (module_inst ex_trace (FnModule ex_Linear) ex_te_linear)
   \<and> Index 9 \<noteq> output_index (torch_fn_instruction ex_te_add)"
  by code_simp

section \<open>Preserved ancestors\<close>

text \<open>
  Claim C2. The module instruction emitted for an element with an eligible ancestor is
  to carry the inputs and the output of the chosen ancestor, not those of the inner
  element's enclosing module. Here the allow-listed layer \<open>layer\<close> is called once, on the
  value 11, and inside the call its submodule \<open>quant\<close> maps 11 to 12 and its submodule
  \<open>act\<close> maps 12 to 13. Both inner elements choose the layer as their ancestor, and the
  check that a parent has already been preserved never holds, so a module instruction
  for the layer is emitted for each of them, and each carries the input list and the
  output of the inner element's own enclosing submodule: the layer is scheduled twice,
  from 11 to 12 and from 12 to 13.
\<close>

theorem ancestor_instruction_not_ancestor_io:
  "parent_in_gen_allowlist ex_generator ex_te_inner1 = Some ex_Block
   \<and> parent_in_gen_allowlist ex_generator ex_te_inner2 = Some ex_Block
   \<and> enclosing_module ex_te_inner1 = ex_Inner1
   \<and> enclosing_module ex_te_inner2 = ex_Inner2
   \<and> gen_schedule ex_generator ex_trace_block (new_CodegenModule ex_store)
       = Inr (ex_generator\<lparr>generated_allowlist_modules :=
                              [(ex_Inner1, [11], 12), (ex_Inner2, [12], 13)]\<rparr>,
              (Created 0,
               ex_store\<lparr>objects := objects ex_store @
                 [(Created 0, \<lparr>attrs = CodegenModule_attributes ex_store,
                                modules = [(''layer'', Created 1)]\<rparr>),
                  (Created 1, \<lparr>attrs = [],
                                modules = [(''quant'', Given 4), (''act'', Given 4)]\<rparr>)]\<rparr>),
              [\<lparr>output_index = Index 12, inst_fn = FnModule ex_Block, inst_fn_type = MODULE,
                 input_args_list = [Leaf (Index 11)], input_kwargs_dict = [],
                 inst_prefix = ''layer.quant''\<rparr>,
               \<lparr>output_index = Index 13, inst_fn = FnModule ex_Block, inst_fn_type = MODULE,
                 input_args_list = [Leaf (Index 12)], input_kwargs_dict = [],
                 inst_prefix = ''layer.act''\<rparr>])
   \<and> map (\<lambda>i. Leaf (index_from_val ex_trace_block i)) (module_input_list ex_te_inner1)
       = [Leaf (Index 11)]
   \<and> index_from_val ex_trace_block (module_output ex_te_inner1) = Index 12
   \<and> map (\<lambda>i. Leaf (index_from_val ex_trace_block i)) (module_input_list ex_te_inner2)
       = [Leaf (Index 12)]
   \<and> index_from_val ex_trace_block (module_output ex_te_inner2) = Index 13"
  by code_simp

section \<open>Repeated calls on one generator\<close>

lemma preserves_iff:
  "preserves g te = (preservable g te \<and> \<not> is_module_already_gen g (enclosing_module te) te)"
  by (simp add: preserves_def preservable_def)

lemma eligible_same_lists:
  assumes "gen_module_allowlist g' = gen_module_allowlist g"
    and "gen_module_blocklist g' = gen_module_blocklist g"
  shows "eligible g' = eligible g"
  using assms
  by (simp add: fun_eq_iff eligible_def is_module_in_gen_allowlist_def
      is_module_in_gen_blocklist_def)

lemma preservable_same_lists:
  assumes "gen_module_allowlist g' = gen_module_allowlist g"
    and "gen_module_blocklist g' = gen_module_blocklist g"
  shows "preservable g' te = preservable g te"
  by (simp add: preservable_def parent_in_gen_allowlist_find
      eligible_same_lists [OF assms])

lemma next_tracker_lists:
  "gen_module_allowlist (next_tracker g te) = gen_module_allowlist g"
  "gen_module_blocklist (next_tracker g te) = gen_module_blocklist g"
  by (simp_all add: next_tracker_def record_ctx_def)

lemma next_tracker_generated:
  "\<exists>new. generated_allowlist_modules (next_tracker g te) = generated_allowlist_modules g @ new"
  by (simp add: next_tracker_def record_ctx_def)

lemma fold_next_tracker_lists:
  "gen_module_allowlist (fold (\<lambda>te g. next_tracker g te) elems g) = gen_module_allowlist g
   \<and> gen_module_blocklist (fold (\<lambda>te g. next_tracker g te) elems g) = gen_module_blocklist g"
  by (induction elems arbitrary: g) (simp_all add: next_tracker_lists)

lemma fold_next_tracker_generated:
  "\<exists>new. generated_allowlist_modules (fold (\<lambda>te g. next_tracker g te) elems g)
           = generated_allowlist_modules g @ new"
proof (induction elems arbitrary: g)
  case Nil
  show ?case by simp
next
  case (Cons te elems)
  from next_tracker_generated [of g te] obtain n1 where
    n1: "generated_allowlist_modules (next_tracker g te) = generated_allowlist_modules g @ n1"
    by blast
  from Cons.IH [of "next_tracker g te"] obtain n2 where
    "generated_allowlist_modules (fold (\<lambda>te g. next_tracker g te) elems (next_tracker g te))
       = generated_allowlist_modules (next_tracker g te) @ n2" by blast
  with n1 show ?case by simp
qed

lemma already_gen_mono:
  assumes "is_module_already_gen g m te"
    and "generated_allowlist_modules g' = generated_allowlist_modules g @ new"
  shows "is_module_already_gen g' m te"
  using assms by (auto simp: is_module_already_gen_iff list_ex_iff)

lemma already_gen_recorded:
  "is_module_already_gen (record_ctx g (enclosing_module te) te) (enclosing_module te) te"
  by (simp add: is_module_already_gen_iff record_ctx_def same_ctx_def same_input_refl)

lemma already_gen_after_step:
  assumes "preservable g te"
  shows "is_module_already_gen (next_tracker g te) (enclosing_module te) te"
  using assms
  by (auto simp: next_tracker_def preserves_iff already_gen_recorded)

lemma already_gen_after_run:
  assumes "te \<in> set elems" and "preservable g te"
  shows "is_module_already_gen (fold (\<lambda>te g. next_tracker g te) elems g) (enclosing_module te) te"
  using assms
proof (induction elems arbitrary: g)
  case Nil
  then show ?case by simp
next
  case (Cons x elems)
  show ?case
  proof (cases "te = x")
    case True
    with Cons.prems have "is_module_already_gen (next_tracker g x) (enclosing_module te) te"
      by (simp add: already_gen_after_step)
    moreover from fold_next_tracker_generated [of elems "next_tracker g x"] obtain new where
      "generated_allowlist_modules (fold (\<lambda>te g. next_tracker g te) elems (next_tracker g x))
         = generated_allowlist_modules (next_tracker g x) @ new" by blast
    ultimately show ?thesis by (simp add: already_gen_mono)
  next
    case False
    with Cons.prems have "te \<in> set elems" by simp
    moreover from Cons.prems have "preservable (next_tracker g x) te"
      by (simp add: preservable_same_lists [OF next_tracker_lists])
    ultimately show ?thesis using Cons.IH by simp
  qed
qed

lemma second_run:
  assumes "\<forall>te \<in> set elems. preservable g te \<longrightarrow> is_module_already_gen g (enclosing_module te) te"
  shows "fold (\<lambda>te g. next_tracker g te) elems g = g
         \<and> expected_schedule g tr elems
             = map (inst_for g tr) (filter (\<lambda>te. \<not> eligible g (enclosing_module te)) elems)"
  using assms
proof (induction elems)
  case Nil
  show ?case by simp
next
  case (Cons x elems)
  from Cons.prems have np: "\<not> preserves g x" by (auto simp: preserves_iff)
  then have nt: "next_tracker g x = g" by (simp add: next_tracker_def)
  from Cons.prems have sk: "skip_disposition g x = eligible g (enclosing_module x)"
    by (auto simp: skip_disposition_def preservable_def)
  from Cons.prems Cons.IH show ?case by (simp add: nt sk)
qed

lemma gen_schedule_result:
  assumes "gen_schedule g tr om = Inr (g1, om1, raw)"
  shows "g1 = fold (\<lambda>te g. next_tracker g te) (trace_elem_list tr) g"
    and "raw = expected_schedule g tr (trace_elem_list tr)"
  using loop_result [of g tr om "trace_elem_list tr" "[]" g1 om1 raw] assms
  by (simp_all add: gen_schedule_def)

lemma inst_prefix_apply:
  "map inst_prefix (apply_consts_params sched cmap pmap) = map inst_prefix sched"
  by (simp add: apply_consts_params_def comp_def)

text \<open>
  Claim C7 (amended). The tracker belongs to the generator object: the constructor sets
  it to empty and \<^verbatim>\<open>gen_model\<close> only appends to it. A call leaves the tracker it found
  followed by the contexts it recorded, and a second call on the same instance and the
  same trace starts from that tracker: it records nothing, it skips every element whose
  enclosing module is eligible, and its schedule holds one instruction for each of the
  other elements, in trace order.
\<close>

theorem gen_model_second_call_skips_recorded:
  assumes "gen_model g tr h = Inr (g1, h1, cm1)" and "gen_model g1 tr hb = Inr (g2, h2, cm2)"
  shows "generated_allowlist_modules (ModuleGenerator_init al bl) = []
         \<and> (\<exists>new. generated_allowlist_modules g1 = generated_allowlist_modules g @ new)
         \<and> g2 = g1
         \<and> map inst_prefix (schedule cm2)
             = map prefix (filter (\<lambda>te. \<not> eligible g (enclosing_module te)) (trace_elem_list tr))"
proof -
  let ?elems = "trace_elem_list tr"
  from gen_model_Inr_unfold [OF assms(1)] obtain om1 raw1 where
    s1: "gen_schedule g tr (new_CodegenModule h) = Inr (g1, om1, raw1)" by blast
  from gen_model_Inr_unfold [OF assms(2)] obtain om2 raw2 cmap pmap where
    s2: "gen_schedule g1 tr (new_CodegenModule hb) = Inr (g2, om2, raw2)" and
    c2: "schedule cm2 = apply_consts_params raw2 cmap pmap" by auto
  from gen_schedule_result(1) [OF s1] have
    g1: "g1 = fold (\<lambda>te g. next_tracker g te) ?elems g" .
  from fold_next_tracker_lists [of ?elems g] g1 have
    lists: "gen_module_allowlist g1 = gen_module_allowlist g"
           "gen_module_blocklist g1 = gen_module_blocklist g" by simp_all
  from fold_next_tracker_generated [of ?elems g] g1 have
    grow: "\<exists>new. generated_allowlist_modules g1 = generated_allowlist_modules g @ new" by simp
  have dup: "\<forall>te \<in> set ?elems. preservable g1 te \<longrightarrow>
               is_module_already_gen g1 (enclosing_module te) te"
  proof (intro ballI impI)
    fix te assume te: "te \<in> set ?elems" and p: "preservable g1 te"
    from p have "preservable g te" by (simp only: preservable_same_lists [OF lists])
    with te have "is_module_already_gen (fold (\<lambda>te g. next_tracker g te) ?elems g)
                    (enclosing_module te) te" by (rule already_gen_after_run)
    then show "is_module_already_gen g1 (enclosing_module te) te" by (simp only: g1)
  qed
  from second_run [OF dup, of tr] have
    fx: "fold (\<lambda>te g. next_tracker g te) ?elems g1 = g1" and
    ex: "expected_schedule g1 tr ?elems
           = map (inst_for g1 tr) (filter (\<lambda>te. \<not> eligible g1 (enclosing_module te)) ?elems)"
    by simp_all
  from gen_schedule_result [OF s2] fx ex have g2: "g2 = g1" and
    raw2: "raw2 = map (inst_for g1 tr)
                    (filter (\<lambda>te. \<not> eligible g1 (enclosing_module te)) ?elems)"
    by simp_all
  have "map inst_prefix (schedule cm2)
          = map prefix (filter (\<lambda>te. \<not> eligible g1 (enclosing_module te)) ?elems)"
    by (simp add: c2 inst_prefix_apply raw2 comp_def inst_prefix_inst_for)
  then have sched: "map inst_prefix (schedule cm2)
          = map prefix (filter (\<lambda>te. \<not> eligible g (enclosing_module te)) ?elems)"
    by (simp add: eligible_same_lists [OF lists])
  have "generated_allowlist_modules (ModuleGenerator_init al bl) = []"
    by (simp add: ModuleGenerator_init_def)
  with grow g2 sched show ?thesis by blast
qed

theorem gen_model_second_call_skips_recorded_witness:
  "gen_model ex_generator ex_trace_indexed ex_store
     = Inr (ex_generator_recorded, ex_store_fc,
            \<lparr>model_object = Created 0,
             schedule =
               [module_inst ex_trace (FnModule ex_Linear) ex_te_linear,
                (torch_fn_instruction ex_te_add)
                  \<lparr>input_args_list := [Leaf (Index 2), AList [Leaf (Num 3)]]\<rparr>],
             input_index_list = [Index 1],
             output_index_list = [Index 3]\<rparr>)
   \<and> gen_model ex_generator_recorded ex_trace_indexed ex_store_fc
     = Inr (ex_generator_recorded, snd (new_CodegenModule ex_store_fc),
            \<lparr>model_object = Created 1,
             schedule =
               [(torch_fn_instruction ex_te_add)
                  \<lparr>input_args_list := [Leaf (Num 6), AList [Leaf (Num 3)]]\<rparr>],
             input_index_list = [Index 1],
             output_index_list = [Index 3]\<rparr>)
   \<and> map prefix (filter (\<lambda>te. \<not> eligible ex_generator (enclosing_module te))
                   (trace_elem_list ex_trace_indexed)) = [[]]"
proof -
  let ?cm1 = "\<lparr>model_object = Created 0,
             schedule =
               [module_inst ex_trace (FnModule ex_Linear) ex_te_linear,
                (torch_fn_instruction ex_te_add)
                  \<lparr>input_args_list := [Leaf (Index 2), AList [Leaf (Num 3)]]\<rparr>],
             input_index_list = [Index 1],
             output_index_list = [Index 3]\<rparr>"
  let ?cm2 = "\<lparr>model_object = Created 1,
             schedule =
               [(torch_fn_instruction ex_te_add)
                  \<lparr>input_args_list := [Leaf (Num 6), AList [Leaf (Num 3)]]\<rparr>],
             input_index_list = [Index 1],
             output_index_list = [Index 3]\<rparr>"
  have h1: "gen_model ex_generator ex_trace_indexed ex_store
              = Inr (ex_generator_recorded, ex_store_fc, ?cm1)"
    by code_simp
  have h2: "gen_model ex_generator_recorded ex_trace_indexed ex_store_fc
              = Inr (ex_generator_recorded, snd (new_CodegenModule ex_store_fc), ?cm2)"
    by code_simp
  have p: "map inst_prefix (schedule ?cm2) = [[]]" by code_simp
  from gen_model_second_call_skips_recorded [OF h1 h2] p
  have "map prefix (filter (\<lambda>te. \<not> eligible ex_generator (enclosing_module te))
                   (trace_elem_list ex_trace_indexed)) = [[]]"
    by metis
  with h1 h2 show ?thesis by blast
qed

text \<open>
  Two calls of \<^verbatim>\<open>gen_model\<close> in succession on one generator and one trace do not give
  the same schedule: the first call records the linear layer and emits its module
  instruction; the second call finds it recorded, skips it, and turns the layer's
  output 2, which no instruction produces any more, into a constant.
\<close>

theorem gen_model_twice_differs:
  "gen_model ex_generator ex_trace_indexed ex_store
     = Inr (ex_generator_recorded, ex_store_fc,
            \<lparr>model_object = Created 0,
             schedule =
               [\<lparr>output_index = Index 2, inst_fn = FnModule ex_Linear, inst_fn_type = MODULE,
                  input_args_list = [Leaf (Index 1)], input_kwargs_dict = [],
                  inst_prefix = ''fc''\<rparr>,
                \<lparr>output_index = Index 3, inst_fn = FnName ''torch.add'',
                  inst_fn_type = FUNCTION,
                  input_args_list = [Leaf (Index 2), AList [Leaf (Num 3)]],
                  input_kwargs_dict = [], inst_prefix = []\<rparr>],
             input_index_list = [Index 1],
             output_index_list = [Index 3]\<rparr>)
   \<and> gen_model ex_generator_recorded ex_trace_indexed ex_store_fc
     = Inr (ex_generator_recorded,
            ex_store\<lparr>objects := objects ex_store @
              [(Created 0, \<lparr>attrs = CodegenModule_attributes ex_store,
                             modules = [(''fc'', Given 2)]\<rparr>),
               (Created 1, \<lparr>attrs = CodegenModule_attributes ex_store, modules = []\<rparr>)]\<rparr>,
            \<lparr>model_object = Created 1,
             schedule =
               [\<lparr>output_index = Index 3, inst_fn = FnName ''torch.add'',
                  inst_fn_type = FUNCTION,
                  input_args_list = [Leaf (Num 6), AList [Leaf (Num 3)]],
                  input_kwargs_dict = [], inst_prefix = []\<rparr>],
             input_index_list = [Index 1],
             output_index_list = [Index 3]\<rparr>)"
  by code_simp


end
